theory Spec2Isabelle
  imports Main "HOL-Library.Word"
begin

section \<open>Machine types\<close>

text \<open>
  The firmware targets an AVR board: \<open>byte\<close> is an unsigned 8-bit value and
  \<open>unsigned long\<close> an unsigned 32-bit value; both wrap around. A C \<open>int\<close> is
  modelled as a mathematical integer: every \<open>int\<close> the valve code computes is a
  difference or sum of a few sensor readings (0..1023) or of promoted bytes, far from
  the 16-bit limits.
\<close>

type_synonym byte = "8 word"
type_synonym ulong = "32 word"

section \<open>HelperFunctions.cpp\<close>

text \<open>C's \<open>%\<close> on \<open>int\<close>: the remainder of the division that truncates towards zero.\<close>

definition c_rem :: "int \<Rightarrow> int \<Rightarrow> int" where
  "c_rem x y = sgn x * (\<bar>x\<bar> mod \<bar>y\<bar>)"

text \<open>\<open>int mod(int x, int y)\<close>: \<open>x<0 ? ((x+1)%y)+y-1 : x%y\<close>.\<close>

definition mod_c :: "int \<Rightarrow> int \<Rightarrow> int" where
  "mod_c x y = (if x < 0 then c_rem (x + 1) y + y - 1 else c_rem x y)"

text \<open>
  \<open>bool isTimedOut(unsigned long startTime, int timeout)\<close>:
  \<open>(unsigned long)(millis() - startTime) > timeout\<close>. The value \<open>now\<close> is what the
  call of \<open>millis()\<close> returned. The subtraction is on 32-bit unsigned values; for the
  comparison the \<open>int\<close> is converted to \<open>unsigned long\<close> (its value modulo \<open>2^32\<close>).
\<close>

definition isTimedOut :: "ulong \<Rightarrow> ulong \<Rightarrow> int \<Rightarrow> bool" where
  "isTimedOut now startTime timeout \<longleftrightarrow> word_of_int timeout < now - startTime"

section \<open>The valve objects\<close>

text \<open>
  The fields shared by \<open>SwitchingValve\<close> (stepper motor) and \<open>SwitchingValveDCMotor\<close>;
  pin numbers and the logging flag are left out.
\<close>

record valve =
  currentPos :: byte
  errors :: byte
  hallSensorIdleSignal :: int
  hallSensorThreshold :: int
  reversedPolarityPos :: byte
  ports :: byte
  clockwiseNumbering :: bool

record stepperValve = valve +
  microSteppingFactor :: int
  stepsPerRevolution :: int
  stepsPerSecond :: int
  enableIsHigh :: bool

subsection \<open>Choice of direction in \<open>gotoPosition\<close>\<close>

text \<open>\<open>mod(targetPos - this->currentPos, this->ports)\<close>, the bytes promoted to \<open>int\<close>.\<close>

definition forwardDistance :: "'a valve_scheme \<Rightarrow> byte \<Rightarrow> int" where
  "forwardDistance v targetPos = mod_c (uint targetPos - uint (currentPos v)) (uint (ports v))"

text \<open>
  SwitchingValve.cpp, lines 95-101: the pair \<open>(dir, signalSteps)\<close>.
\<close>

definition gotoPlan :: "'a valve_scheme \<Rightarrow> byte \<Rightarrow> int \<times> int" where
  "gotoPlan v targetPos =
     (if forwardDistance v targetPos < uint (ports v) div 2
      then (1, forwardDistance v targetPos)
      else (- 1, uint (ports v) - forwardDistance v targetPos))"

text \<open>
  SwitchingValveDCMotor.cpp, lines 85-91: the pair \<open>(dirIncreasing, signalSteps)\<close>.
\<close>

definition gotoPlanDC :: "'a valve_scheme \<Rightarrow> byte \<Rightarrow> bool \<times> int" where
  "gotoPlanDC v targetPos =
     (if forwardDistance v targetPos < uint (ports v) div 2
      then (False, forwardDistance v targetPos)
      else (True, uint (ports v) - forwardDistance v targetPos))"

section \<open>The environment\<close>

text \<open>
  The hardware the firmware talks to. \<open>sensor\<close> holds the values the coming calls of
  \<open>readHallSensorSignal\<close> return (each the mean of four ADC samples, 0..1023),
  \<open>clock\<close> the values the coming calls of \<open>millis()\<close> return, and \<open>motor\<close> the
  commands sent to the actuator so far, oldest first. \<open>garbage\<close> is the value found in
  a local array slot that is read before anything was written to it.
\<close>

datatype action =
    SleepPin bool        \<comment> \<open>\<open>digitalWrite(sleepPin, b)\<close> of the stepper driver\<close>
  | Steps int            \<comment> \<open>a finished \<open>takeSteps\<close>: signed number of motor steps\<close>
  | MotorPins bool bool  \<comment> \<open>the levels written to \<open>dcMotorPin1\<close>, \<open>dcMotorPin2\<close>\<close>

record world =
  sensor :: "int list"
  clock :: "ulong list"
  motor :: "action list"
  garbage :: int

text \<open>
  A run of the model stops with \<open>TraceEnd\<close> when the recorded environment is used up
  (the code itself would go on), and with \<open>Undefined\<close> where the C code leaves the
  language: a division by zero or an array access out of bounds.
\<close>

datatype fault = TraceEnd | Undefined

text \<open>A loop body either returns from the enclosing function or falls through.\<close>

datatype ('r, 'k) flow = Return 'r | Next 'k

definition millis :: "world \<Rightarrow> fault + ulong \<times> world" where
  "millis w = (case clock w of [] \<Rightarrow> Inl TraceEnd | t # ts \<Rightarrow> Inr (t, w\<lparr>clock := ts\<rparr>))"

definition readHallSensorSignal :: "world \<Rightarrow> fault + int \<times> world" where
  "readHallSensorSignal w =
     (case sensor w of [] \<Rightarrow> Inl TraceEnd | h # hs \<Rightarrow> Inr (h, w\<lparr>sensor := hs\<rparr>))"

definition act :: "action \<Rightarrow> world \<Rightarrow> world" where
  "act a w = w\<lparr>motor := motor w @ [a]\<rparr>"

text \<open>
  \<open>abs(hallSignal - hallSensorIdleSignal) >= hallSensorThreshold\<close> and its negation
  \<open>abs(hallSignal - hallSensorIdleSignal) < hallSensorThreshold\<close>.
\<close>

definition aboveThreshold :: "'a valve_scheme \<Rightarrow> int \<Rightarrow> bool" where
  "aboveThreshold v hallSignal \<longleftrightarrow>
     \<bar>hallSignal - hallSensorIdleSignal v\<bar> \<ge> hallSensorThreshold v"

subsection \<open>Parts of \<open>initializeValve\<close> shared by both variants\<close>

text \<open>
  ``Make sure the Hall sensor is responding'': the loop \<open>for (int i=0; i < 3; i++)\<close>
  that adds the readings into \<open>hallSensorIdleSignal\<close>, from index \<open>i\<close> on.
\<close>

function accumulateReads :: "int \<Rightarrow> int \<Rightarrow> world \<Rightarrow> fault + int \<times> world" where
  "accumulateReads i idleSum w =
     (if i < 3 then
        (case readHallSensorSignal w of
           Inl e \<Rightarrow> Inl e
         | Inr (h, w1) \<Rightarrow> accumulateReads (i + 1) (idleSum + h) w1)
      else Inr (idleSum, w))"
  by pat_completeness auto
termination
  by (relation "measure (\<lambda>(i, idleSum, w). nat (3 - i))") auto

declare accumulateReads.simps [simp del]

text \<open>
  \<open>ace_sorting::shellSortKnuth\<close> of the AceSorting library sorts an array in ascending
  order; on integers the result of an ascending sort is unique, so it is \<^const>\<open>sort\<close>.
\<close>

definition shellSortKnuth :: "int list \<Rightarrow> int list" where
  "shellSortKnuth xs = sort xs"

text \<open>
  The median of the collected minima: \<open>minValues[(int)(size * 0.5)]\<close> after sorting.
  With no minimum collected the array is empty and the access is out of bounds.
\<close>

definition medianOfMinima :: "int list \<Rightarrow> fault + int" where
  "medianOfMinima minValues =
     (if minValues = [] then Inl Undefined
      else Inr (shellSortKnuth minValues ! (length minValues div 2)))"

text \<open>
  Conversions \<open>(int)(x * 0.36787)\<close> and \<open>(int)(x / 2.5)\<close>: the product or quotient
  is formed in floating point and truncated towards zero. For every \<open>x\<close> with
  \<open>\<bar>x\<bar> < 11939\<close>, which includes every difference of two sensor readings, the
  truncated IEEE single and double precision results are the integers below.
\<close>

definition attenuate :: "int \<Rightarrow> int" where
  "attenuate x = sgn x * ((\<bar>x\<bar> * 36787) div 100000)"

definition divideBy2_5 :: "int \<Rightarrow> int" where
  "divideBy2_5 x = sgn x * ((\<bar>x\<bar> * 2) div 5)"

section \<open>SwitchingValveDCMotor.cpp\<close>

definition startTurning :: "valve \<Rightarrow> bool \<Rightarrow> world \<Rightarrow> world" where
  "startTurning v dirIncreasing w =
     (if (clockwiseNumbering v \<and> dirIncreasing) \<or> (\<not> clockwiseNumbering v \<and> \<not> dirIncreasing)
      then act (MotorPins True False) w
      else act (MotorPins False True) w)"

definition stopTurning :: "world \<Rightarrow> world" where
  "stopTurning w = act (MotorPins False False) w"

text \<open>
  The loop of \<open>SwitchingValveDCMotor::gotoPosition\<close> (lines 94-108), with the timeout
  1500 ms of line 77. On a timeout the function returns from inside the loop.
\<close>

function gotoLoopDC ::
  "valve \<Rightarrow> ulong \<Rightarrow> int \<Rightarrow> byte \<Rightarrow> bool \<Rightarrow> world
     \<Rightarrow> fault + (bool \<times> valve \<times> world, world) flow" where
  "gotoLoopDC v startTime signalSteps signalCounter isAboveThreshold w =
     (if uint signalCounter \<le> signalSteps then
        (case millis w of
           Inl e \<Rightarrow> Inl e
         | Inr (now, w1) \<Rightarrow>
             if isTimedOut now startTime 1500
             then Inr (Return (False, v\<lparr>errors := 3\<rparr>, stopTurning w1))
             else (case readHallSensorSignal w1 of
                     Inl e \<Rightarrow> Inl e
                   | Inr (hallSignal, w2) \<Rightarrow>
                       let rising = \<not> isAboveThreshold \<and> aboveThreshold v hallSignal;
                           signalCounter1 = (if rising then signalCounter + 1 else signalCounter);
                           isAbove1 = (if rising then True else isAboveThreshold);
                           isAbove2 = (if \<not> aboveThreshold v hallSignal then False else isAbove1)
                       in gotoLoopDC v startTime signalSteps signalCounter1 isAbove2 w2))
      else Inr (Next w))"
  by pat_completeness auto
termination
  by (relation "measure (\<lambda>(v, startTime, signalSteps, signalCounter, isAbove, w). length (clock w))")
     (auto simp: millis_def readHallSensorSignal_def startTurning_def stopTurning_def act_def
           split: list.splits)

declare gotoLoopDC.simps [simp del]

text \<open>
  \<open>SwitchingValveDCMotor::gotoPosition\<close>. The result is the returned \<open>bool\<close>, the
  object and the environment after the call. With \<open>ports = 0\<close> the call of \<open>mod\<close>
  divides by zero.
\<close>

definition gotoPositionDC :: "valve \<Rightarrow> byte \<Rightarrow> world \<Rightarrow> fault + bool \<times> valve \<times> world" where
  "gotoPositionDC v targetPos w =
     (case millis w of
        Inl e \<Rightarrow> Inl e
      | Inr (startTime, w0) \<Rightarrow>
          if ports v = 0 then Inl Undefined
          else
            (case gotoPlanDC v targetPos of
               (dirIncreasing, signalSteps) \<Rightarrow>
                 (case gotoLoopDC v startTime signalSteps 0 False (startTurning v dirIncreasing w0) of
                    Inl e \<Rightarrow> Inl e
                  | Inr (Return r) \<Rightarrow> Inr r
                  | Inr (Next w1) \<Rightarrow>
                      Inr (True, v\<lparr>currentPos := targetPos, errors := 0\<rparr>, stopTurning w1))))"

subsection \<open>\<open>SwitchingValveDCMotor::initializeValve\<close>\<close>

text \<open>
  Lines 149-156: 512 readings while the motor turns, with the running \<open>minValue\<close> and
  \<open>maxValue\<close> of the readings closer than 200 to the provisional idle signal.
\<close>

function sampleLoopDC ::
  "valve \<Rightarrow> int \<Rightarrow> int \<Rightarrow> int \<Rightarrow> world \<Rightarrow> fault + int list \<times> int \<times> int \<times> world" where
  "sampleLoopDC v i minValue maxValue w =
     (if i < 512 then
        (case readHallSensorSignal w of
           Inl e \<Rightarrow> Inl e
         | Inr (s, w1) \<Rightarrow>
             let maxValue1 = (if s > maxValue \<and> \<bar>s - hallSensorIdleSignal v\<bar> < 200
                              then s else maxValue);
                 minValue1 = (if \<not> (s > maxValue \<and> \<bar>s - hallSensorIdleSignal v\<bar> < 200)
                                 \<and> s < minValue \<and> \<bar>s - hallSensorIdleSignal v\<bar> < 200
                              then s else minValue)
             in (case sampleLoopDC v (i + 1) minValue1 maxValue1 w1 of
                   Inl e \<Rightarrow> Inl e
                 | Inr (sensorSignals, minValue2, maxValue2, w2) \<Rightarrow>
                     Inr (s # sensorSignals, minValue2, maxValue2, w2)))
      else Inr ([], minValue, maxValue, w))"
  by pat_completeness auto
termination
  by (relation "measure (\<lambda>(v, i, minValue, maxValue, w). nat (512 - i))") auto

declare sampleLoopDC.simps [simp del]

text \<open>
  Lines 159-165: every reading that is not above either neighbour is written to
  \<open>minValuesTmp[j]\<close>, an array of 64 elements; the code has no check of \<open>j\<close>. The
  result is the final \<open>j\<close> and the array.
\<close>

fun writeMinimaDC :: "int list \<Rightarrow> nat \<Rightarrow> int list \<Rightarrow> fault + nat \<times> int list" where
  "writeMinimaDC (a # b # c # rest) j minValuesTmp =
     (if a \<ge> b \<and> c \<ge> b then
        (if j < 64 then writeMinimaDC (b # c # rest) (j + 1) (minValuesTmp[j := b])
         else Inl Undefined)
      else writeMinimaDC (b # c # rest) j minValuesTmp)"
| "writeMinimaDC sensorSignals j minValuesTmp = Inr (j, minValuesTmp)"

text \<open>Lines 142-175: the calibration of idle signal and threshold.\<close>

definition calibrateDC :: "valve \<Rightarrow> world \<Rightarrow> fault + valve \<times> world" where
  "calibrateDC v w =
     (case readHallSensorSignal w of
        Inl e \<Rightarrow> Inl e
      | Inr (hallSignal, w1) \<Rightarrow>
          (case sampleLoopDC (v\<lparr>hallSensorIdleSignal := 512\<rparr>) 0 1023 0
                  (startTurning v True w1) of
             Inl e \<Rightarrow> Inl e
           | Inr (sensorSignals, minValue, maxValue, w2) \<Rightarrow>
               (case writeMinimaDC sensorSignals 0 (replicate 64 (garbage w2)) of
                  Inl e \<Rightarrow> Inl e
                | Inr (j, minValuesTmp) \<Rightarrow>
                    (case medianOfMinima (take j minValuesTmp) of
                       Inl e \<Rightarrow> Inl e
                     | Inr idle \<Rightarrow>
                         Inr (v\<lparr>hallSensorIdleSignal := idle,
                                hallSensorThreshold :=
                                  divideBy2_5 (min \<bar>minValue - idle\<bar> \<bar>maxValue - idle\<bar>)\<rparr>,
                              stopTurning w2)))))"

text \<open>
  Lines 182-201: the census loop, counting peaks by polarity until \<open>2 * ports\<close> peaks
  were seen, with the timeout of 3000 ms checked at the end of each round.
\<close>

function censusLoopDC ::
  "valve \<Rightarrow> ulong \<Rightarrow> byte \<Rightarrow> byte \<Rightarrow> byte \<Rightarrow> bool \<Rightarrow> int \<Rightarrow> world
     \<Rightarrow> fault + (bool \<times> valve \<times> world, byte \<times> byte \<times> bool \<times> int \<times> world) flow" where
  "censusLoopDC v startTime signalCounter posPolarityCounter negPolarityCounter
       isAboveThreshold hallSignal0 w =
     (if uint signalCounter < 2 * uint (ports v) then
        (case readHallSensorSignal w of
           Inl e \<Rightarrow> Inl e
         | Inr (hallSignal, w1) \<Rightarrow>
             let rising = \<not> isAboveThreshold \<and> aboveThreshold v hallSignal;
                 isAbove1 = (if rising then True else isAboveThreshold);
                 signalCounter1 = (if rising then signalCounter + 1 else signalCounter);
                 pos1 = (if rising \<and> hallSignal > hallSensorIdleSignal v
                         then posPolarityCounter + 1 else posPolarityCounter);
                 neg1 = (if rising \<and> \<not> hallSignal > hallSensorIdleSignal v
                         then negPolarityCounter + 1 else negPolarityCounter);
                 isAbove2 = (if \<not> aboveThreshold v hallSignal then False else isAbove1)
             in (case millis w1 of
                   Inl e \<Rightarrow> Inl e
                 | Inr (now, w2) \<Rightarrow>
                     if isTimedOut now startTime 3000
                     then Inr (Return (False, v\<lparr>errors := 3\<rparr>, stopTurning w2))
                     else censusLoopDC v startTime signalCounter1 pos1 neg1 isAbove2 hallSignal w2))
      else Inr (Next (posPolarityCounter, negPolarityCounter, isAboveThreshold, hallSignal0, w)))"
  by pat_completeness auto
termination
  by (relation "measure (\<lambda>(v, startTime, signalCounter, pos, neg, isAbove, h, w). length (clock w))")
     (auto simp: millis_def readHallSensorSignal_def startTurning_def stopTurning_def act_def
           split: list.splits)

declare censusLoopDC.simps [simp del]

text \<open>
  Lines 178-208: the polarity census with its check. It falls through with
  \<open>majorityHasPositivePolarity\<close>, \<open>isAboveThreshold\<close> and the last reading.
\<close>

definition censusDC ::
  "valve \<Rightarrow> world \<Rightarrow> fault + (bool \<times> valve \<times> world, bool \<times> bool \<times> int \<times> world) flow" where
  "censusDC v w =
     (case readHallSensorSignal w of
        Inl e \<Rightarrow> Inl e
      | Inr (hallSignal, w1) \<Rightarrow>
          (case millis w1 of
             Inl e \<Rightarrow> Inl e
           | Inr (startTime, w2) \<Rightarrow>
               (case censusLoopDC v startTime 0 0 0 (aboveThreshold v hallSignal) hallSignal
                       (startTurning v True w2) of
                  Inl e \<Rightarrow> Inl e
                | Inr (Return r) \<Rightarrow> Inr (Return r)
                | Inr (Next (posPolarityCounter, negPolarityCounter, isAboveThreshold, hallSignal1, w3)) \<Rightarrow>
                    if \<bar>uint posPolarityCounter - uint negPolarityCounter\<bar> \<noteq> 2 * (uint (ports v) - 2)
                    then Inr (Return (False, v\<lparr>errors := 2\<rparr>, stopTurning w3))
                    else Inr (Next (uint posPolarityCounter > uint negPolarityCounter,
                                    isAboveThreshold, hallSignal1, stopTurning w3)))))"

text \<open>
  Lines 217-234: the search for the peak of the opposite polarity. The loop is left by
  \<open>break\<close> at such a peak, or when more than \<open>2 * ports\<close> peaks were counted.
\<close>

function locateLoopDC ::
  "valve \<Rightarrow> ulong \<Rightarrow> bool \<Rightarrow> byte \<Rightarrow> bool \<Rightarrow> world
     \<Rightarrow> fault + (bool \<times> valve \<times> world, byte \<times> world) flow" where
  "locateLoopDC v startTime majorityHasPositivePolarity signalCounter isAboveThreshold w =
     (if uint signalCounter \<le> 2 * uint (ports v) then
        (case millis w of
           Inl e \<Rightarrow> Inl e
         | Inr (now, w1) \<Rightarrow>
             if isTimedOut now startTime 3000
             then Inr (Return (False, v\<lparr>errors := 3\<rparr>, stopTurning w1))
             else (case readHallSensorSignal w1 of
                     Inl e \<Rightarrow> Inl e
                   | Inr (hallSignal, w2) \<Rightarrow>
                       let rising = \<not> isAboveThreshold \<and> aboveThreshold v hallSignal;
                           signalCounter1 = (if rising then signalCounter + 1 else signalCounter);
                           isAbove1 = (if rising then True else isAboveThreshold);
                           isAbove2 = (if \<not> aboveThreshold v hallSignal then False else isAbove1)
                       in if rising \<and> (hallSignal > hallSensorIdleSignal v) \<noteq> majorityHasPositivePolarity
                          then Inr (Next (signalCounter1, w2))
                          else locateLoopDC v startTime majorityHasPositivePolarity
                                 signalCounter1 isAbove2 w2))
      else Inr (Next (signalCounter, w)))"
  by pat_completeness auto
termination
  by (relation "measure (\<lambda>(v, startTime, majority, signalCounter, isAbove, w). length (clock w))")
     (auto simp: millis_def readHallSensorSignal_def startTurning_def stopTurning_def act_def
           split: list.splits)

declare locateLoopDC.simps [simp del]

text \<open>Lines 243-247: the end of \<open>initializeValve\<close>; the result of \<open>gotoPosition(0)\<close> is dropped.\<close>

definition finalizeDC :: "valve \<Rightarrow> world \<Rightarrow> fault + bool \<times> valve \<times> world" where
  "finalizeDC v w =
     (case gotoPositionDC (v\<lparr>currentPos := reversedPolarityPos v\<rparr>) 0 w of
        Inl e \<Rightarrow> Inl e
      | Inr (r, v1, w1) \<Rightarrow> Inr (True, v1\<lparr>errors := 0\<rparr>, w1))"

text \<open>
  Lines 208-247: reference localization, then the end of the function. When the census
  ended on the reference magnet, line 215 stores the reference port at once and the
  search loop is skipped.
\<close>

definition locateDC :: "valve \<Rightarrow> bool \<Rightarrow> bool \<Rightarrow> int \<Rightarrow> world \<Rightarrow> fault + bool \<times> valve \<times> world" where
  "locateDC v majorityHasPositivePolarity isAboveThreshold hallSignal w =
     (case millis w of
        Inl e \<Rightarrow> Inl e
      | Inr (startTime, w1) \<Rightarrow>
          let onReference =
                (isAboveThreshold
                   \<and> (hallSignal > hallSensorIdleSignal v) \<noteq> majorityHasPositivePolarity);
              v1 = (if onReference then v\<lparr>currentPos := reversedPolarityPos v\<rparr> else v)
          in (case (if onReference
                    then Inr (Next (0, startTurning v True w1))
                    else locateLoopDC v startTime majorityHasPositivePolarity 0 isAboveThreshold
                           (startTurning v True w1)) of
                Inl e \<Rightarrow> Inl e
              | Inr (Return r) \<Rightarrow> Inr r
              | Inr (Next (signalCounter, w2)) \<Rightarrow>
                  if uint signalCounter \<ge> 2 * uint (ports v1)
                  then Inr (False, v1\<lparr>errors := 2\<rparr>, stopTurning w2)
                  else finalizeDC v1 (stopTurning w2)))"

text \<open>Lines 142-247: what \<open>initializeValve\<close> does once the sensor has responded.\<close>

definition afterSensorCheckDC :: "valve \<Rightarrow> world \<Rightarrow> fault + bool \<times> valve \<times> world" where
  "afterSensorCheckDC v w =
     (case calibrateDC v w of
        Inl e \<Rightarrow> Inl e
      | Inr (v1, w1) \<Rightarrow>
          (case censusDC v1 w1 of
             Inl e \<Rightarrow> Inl e
           | Inr (Return r) \<Rightarrow> Inr r
           | Inr (Next (majorityHasPositivePolarity, isAboveThreshold, hallSignal, w2)) \<Rightarrow>
               locateDC v1 majorityHasPositivePolarity isAboveThreshold hallSignal w2))"

text \<open>\<open>SwitchingValveDCMotor::initializeValve\<close>.\<close>

definition initializeValveDC :: "valve \<Rightarrow> world \<Rightarrow> fault + bool \<times> valve \<times> world" where
  "initializeValveDC v w =
     (case accumulateReads 0 0 w of
        Inl e \<Rightarrow> Inl e
      | Inr (idleSum, w1) \<Rightarrow>
          if idleSum = 0
          then Inr (False, v\<lparr>hallSensorThreshold := 0, hallSensorIdleSignal := idleSum, errors := 1\<rparr>, w1)
          else afterSensorCheckDC (v\<lparr>hallSensorThreshold := 0, hallSensorIdleSignal := idleSum\<rparr>) w1)"

section \<open>SwitchingValve.cpp\<close>

text \<open>
  \<open>takeSteps(dir, steps, stepsPerSec)\<close> runs the stepper until it has moved by
  \<open>dir*steps\<close> steps, \<open>dir\<close> negated for clockwise numbering; the AccelStepper library
  is taken to deliver them.
\<close>

definition takeSteps :: "stepperValve \<Rightarrow> int \<Rightarrow> int \<Rightarrow> world \<Rightarrow> world" where
  "takeSteps v dir steps w =
     act (Steps ((if clockwiseNumbering v then dir * (- 1) else dir) * steps)) w"

text \<open>
  The coarse loop of \<open>SwitchingValve::gotoPosition\<close> (lines 105-124), timeout 2000 ms.
  On a timeout the code executes \<open>return true\<close> (line 111).
\<close>

function coarseLoop ::
  "stepperValve \<Rightarrow> ulong \<Rightarrow> int \<Rightarrow> int \<Rightarrow> byte \<Rightarrow> byte \<Rightarrow> bool \<Rightarrow> int \<Rightarrow> world
     \<Rightarrow> fault + (bool \<times> stepperValve \<times> world, bool \<times> int \<times> world) flow" where
  "coarseLoop v startTime dir signalSteps mul signalCounter isAboveThreshold hallSignal0 w =
     (if uint signalCounter \<le> signalSteps then
        (case millis (takeSteps v dir (uint mul) w) of
           Inl e \<Rightarrow> Inl e
         | Inr (now, w1) \<Rightarrow>
             if isTimedOut now startTime 2000
             then Inr (Return (True, v\<lparr>errors := 3\<rparr>, act (SleepPin (\<not> enableIsHigh v)) w1))
             else (case readHallSensorSignal w1 of
                     Inl e \<Rightarrow> Inl e
                   | Inr (hallSignal, w2) \<Rightarrow>
                       let rising = \<not> isAboveThreshold \<and> aboveThreshold v hallSignal;
                           signalCounter1 = (if rising then signalCounter + 1 else signalCounter);
                           isAbove1 = (if rising then True else isAboveThreshold);
                           isAbove2 = (if \<not> aboveThreshold v hallSignal then False else isAbove1);
                           mul1 = (if \<not> aboveThreshold v hallSignal \<and> uint signalCounter1 = signalSteps
                                   then word_of_int (microSteppingFactor v) else mul)
                       in coarseLoop v startTime dir signalSteps mul1 signalCounter1 isAbove2 hallSignal w2))
      else Inr (Next (isAboveThreshold, hallSignal0, w)))"
  by pat_completeness auto
termination
  by (relation "measure (\<lambda>(v, startTime, dir, signalSteps, mul, signalCounter, isAbove, h, w).
                  length (clock w))")
     (auto simp: millis_def readHallSensorSignal_def takeSteps_def act_def split: list.splits)

declare coarseLoop.simps [simp del]

text \<open>The fine loop of \<open>SwitchingValve::gotoPosition\<close> (lines 128-138).\<close>

function fineLoop ::
  "stepperValve \<Rightarrow> ulong \<Rightarrow> int \<Rightarrow> bool \<Rightarrow> int \<Rightarrow> int \<Rightarrow> world
     \<Rightarrow> fault + (bool \<times> stepperValve \<times> world, world) flow" where
  "fineLoop v startTime dir isAboveThreshold lastRead hallSignal w =
     (if \<not> isAboveThreshold
         \<or> (isAboveThreshold
              \<and> \<bar>lastRead - hallSensorIdleSignal v\<bar> \<le> \<bar>hallSignal - hallSensorIdleSignal v\<bar>)
      then
        (case millis w of
           Inl e \<Rightarrow> Inl e
         | Inr (now, w1) \<Rightarrow>
             if isTimedOut now startTime 2000
             then Inr (Return (False, v\<lparr>errors := 3\<rparr>, act (SleepPin (\<not> enableIsHigh v)) w1))
             else (case readHallSensorSignal (takeSteps v dir 1 w1) of
                     Inl e \<Rightarrow> Inl e
                   | Inr (hallSignal1, w2) \<Rightarrow>
                       fineLoop v startTime dir (aboveThreshold v hallSignal1) hallSignal hallSignal1 w2))
      else Inr (Next w))"
  by pat_completeness auto
termination
  by (relation "measure (\<lambda>(v, startTime, dir, isAbove, lastRead, h, w). length (clock w))")
     (auto simp: millis_def readHallSensorSignal_def takeSteps_def act_def split: list.splits)

declare fineLoop.simps [simp del]

text \<open>\<open>SwitchingValve::gotoPosition\<close>.\<close>

definition gotoPosition ::
  "stepperValve \<Rightarrow> byte \<Rightarrow> world \<Rightarrow> fault + bool \<times> stepperValve \<times> world" where
  "gotoPosition v targetPos w =
     (case millis w of
        Inl e \<Rightarrow> Inl e
      | Inr (startTime, w0) \<Rightarrow>
          if ports v = 0 then Inl Undefined
          else
            (case gotoPlan v targetPos of
               (dir, signalSteps) \<Rightarrow>
                 (case coarseLoop v startTime dir signalSteps (word_of_int (3 * microSteppingFactor v))
                         0 False 0 (act (SleepPin (enableIsHigh v)) w0) of
                    Inl e \<Rightarrow> Inl e
                  | Inr (Return r) \<Rightarrow> Inr r
                  | Inr (Next (isAboveThreshold, hallSignal, w1)) \<Rightarrow>
                      (case fineLoop v startTime dir isAboveThreshold hallSignal hallSignal w1 of
                         Inl e \<Rightarrow> Inl e
                       | Inr (Return r) \<Rightarrow> Inr r
                       | Inr (Next w2) \<Rightarrow>
                           Inr (True, v\<lparr>currentPos := targetPos, errors := 0\<rparr>,
                                act (SleepPin (\<not> enableIsHigh v)) w2)))))"

subsection \<open>\<open>SwitchingValve::initializeValve\<close>\<close>

text \<open>
  The number of elements of \<open>sensorSignals\<close>, \<open>(int)((float)stepsPerRevolution / mul)+1\<close>,
  which is also the number of rounds of the census loop. The quotient is truncated
  towards zero. A zero \<open>mul\<close> and an array size that is not positive are undefined.
\<close>

definition sampleCount :: "stepperValve \<Rightarrow> byte \<Rightarrow> fault + int" where
  "sampleCount v mul =
     (if mul = 0 then Inl Undefined
      else if sgn (stepsPerRevolution v) * (\<bar>stepsPerRevolution v\<bar> div uint mul) + 1 \<le> 0
      then Inl Undefined
      else Inr (sgn (stepsPerRevolution v) * (\<bar>stepsPerRevolution v\<bar> div uint mul) + 1))"

text \<open>Lines 178-181: one rotation in bursts of \<open>mul\<close> steps, one reading after each.\<close>

function sampleLoop ::
  "stepperValve \<Rightarrow> byte \<Rightarrow> int \<Rightarrow> int \<Rightarrow> world \<Rightarrow> fault + int list \<times> world" where
  "sampleLoop v mul n i w =
     (if i < n then
        (case readHallSensorSignal (takeSteps v 1 (uint mul) w) of
           Inl e \<Rightarrow> Inl e
         | Inr (s, w1) \<Rightarrow>
             (case sampleLoop v mul n (i + 1) w1 of
                Inl e \<Rightarrow> Inl e
              | Inr (sensorSignals, w2) \<Rightarrow> Inr (s # sensorSignals, w2)))
      else Inr ([], w))"
  by pat_completeness auto
termination
  by (relation "measure (\<lambda>(v, mul, n, i, w). nat (n - i))") auto

declare sampleLoop.simps [simp del]

text \<open>
  Lines 183-189: every reading that is not above either neighbour is written to
  \<open>minValuesTmp[j%64]\<close>. The result is the final \<open>j\<close> and the array.
\<close>

fun writeMinima :: "int list \<Rightarrow> nat \<Rightarrow> int list \<Rightarrow> nat \<times> int list" where
  "writeMinima (a # b # c # rest) j minValuesTmp =
     (if a \<ge> b \<and> c \<ge> b
      then writeMinima (b # c # rest) (j + 1) (minValuesTmp[j mod 64 := b])
      else writeMinima (b # c # rest) j minValuesTmp)"
| "writeMinima sensorSignals j minValuesTmp = (j, minValuesTmp)"

text \<open>
  Lines 200-206: every reading whose distance from the idle signal is not below that of
  either neighbour has this distance written to \<open>maxValues[j%64]\<close>.
\<close>

fun writeMaxima :: "stepperValve \<Rightarrow> int list \<Rightarrow> nat \<Rightarrow> int list \<Rightarrow> nat \<times> int list" where
  "writeMaxima v (a # b # c # rest) j maxValues =
     (if \<bar>a - hallSensorIdleSignal v\<bar> \<le> \<bar>b - hallSensorIdleSignal v\<bar>
         \<and> \<bar>c - hallSensorIdleSignal v\<bar> \<le> \<bar>b - hallSensorIdleSignal v\<bar>
      then writeMaxima v (b # c # rest) (j + 1) (maxValues[j mod 64 := \<bar>b - hallSensorIdleSignal v\<bar>])
      else writeMaxima v (b # c # rest) j maxValues)"
| "writeMaxima v sensorSignals j maxValues = (j, maxValues)"

text \<open>Lines 207-209: \<open>for (int i=j; i < 64 - 1; i++) maxValues[i] = 0\<close>.\<close>

definition zeroFill :: "nat \<Rightarrow> int list \<Rightarrow> int list" where
  "zeroFill j maxValues = fold (\<lambda>i buf. buf[i := 0]) [j..<63] maxValues"

text \<open>
  Lines 211-212: the threshold is \<open>(int)(maxValues[64 - ports] * 0.36787)\<close> of the
  sorted array; the index is out of bounds unless \<open>1 \<le> ports \<le> 64\<close>.
\<close>

definition pickThreshold :: "stepperValve \<Rightarrow> int list \<Rightarrow> fault + int" where
  "pickThreshold v maxValues =
     (if ports v = 0 \<or> 64 < uint (ports v) then Inl Undefined
      else Inr (attenuate (shellSortKnuth maxValues ! nat (64 - uint (ports v)))))"

text \<open>
  Lines 173-212: the calibration of idle signal and threshold. Both scratch arrays are
  uninitialised when they are declared.
\<close>

definition calibrate :: "stepperValve \<Rightarrow> byte \<Rightarrow> int \<Rightarrow> world \<Rightarrow> fault + stepperValve \<times> world" where
  "calibrate v mul n w =
     (case sampleLoop (v\<lparr>hallSensorIdleSignal := 512\<rparr>) mul n 0
             (act (SleepPin (enableIsHigh v)) w) of
        Inl e \<Rightarrow> Inl e
      | Inr (sensorSignals, w1) \<Rightarrow>
          (case writeMinima sensorSignals 0 (replicate 64 (garbage w1)) of
             (j, minValuesTmp) \<Rightarrow>
               (case medianOfMinima (take (j mod 64) minValuesTmp) of
                  Inl e \<Rightarrow> Inl e
                | Inr idle \<Rightarrow>
                    (case writeMaxima (v\<lparr>hallSensorIdleSignal := idle\<rparr>) sensorSignals 0
                            (replicate 64 (garbage w1)) of
                       (j1, maxValues) \<Rightarrow>
                         (case pickThreshold v (zeroFill j1 maxValues) of
                            Inl e \<Rightarrow> Inl e
                          | Inr threshold \<Rightarrow>
                              Inr (v\<lparr>hallSensorIdleSignal := idle,
                                     hallSensorThreshold := threshold\<rparr>, w1))))))"

text \<open>Lines 218-233: the census loop over one more rotation.\<close>

function censusLoop ::
  "stepperValve \<Rightarrow> byte \<Rightarrow> int \<Rightarrow> int \<Rightarrow> byte \<Rightarrow> byte \<Rightarrow> bool \<Rightarrow> int \<Rightarrow> world
     \<Rightarrow> fault + byte \<times> byte \<times> bool \<times> int \<times> world" where
  "censusLoop v mul n stepsTaken posPolarityCounter negPolarityCounter isAboveThreshold hallSignal0 w =
     (if stepsTaken < n then
        (case readHallSensorSignal (takeSteps v 1 (uint mul) w) of
           Inl e \<Rightarrow> Inl e
         | Inr (hallSignal, w1) \<Rightarrow>
             let rising = \<not> isAboveThreshold \<and> aboveThreshold v hallSignal;
                 isAbove1 = (if rising then True else isAboveThreshold);
                 pos1 = (if rising \<and> hallSignal > hallSensorIdleSignal v
                         then posPolarityCounter + 1 else posPolarityCounter);
                 neg1 = (if rising \<and> \<not> hallSignal > hallSensorIdleSignal v
                         then negPolarityCounter + 1 else negPolarityCounter);
                 isAbove2 = (if \<not> aboveThreshold v hallSignal then False else isAbove1)
             in censusLoop v mul n (stepsTaken + 1) pos1 neg1 isAbove2 hallSignal w1)
      else Inr (posPolarityCounter, negPolarityCounter, isAboveThreshold, hallSignal0, w))"
  by pat_completeness auto
termination
  by (relation "measure (\<lambda>(v, mul, n, stepsTaken, pos, neg, isAbove, h, w). nat (n - stepsTaken))")
     auto

declare censusLoop.simps [simp del]

text \<open>
  Lines 215-241: the polarity census with its check. It falls through with
  \<open>majorityHasPositivePolarity\<close>, \<open>isAboveThreshold\<close> and the last reading.
\<close>

definition census ::
  "stepperValve \<Rightarrow> byte \<Rightarrow> int \<Rightarrow> world
     \<Rightarrow> fault + (bool \<times> stepperValve \<times> world, bool \<times> bool \<times> int \<times> world) flow" where
  "census v mul n w =
     (case readHallSensorSignal w of
        Inl e \<Rightarrow> Inl e
      | Inr (hallSignal, w1) \<Rightarrow>
          (case censusLoop v mul n 0 0 0 (aboveThreshold v hallSignal) hallSignal w1 of
             Inl e \<Rightarrow> Inl e
           | Inr (posPolarityCounter, negPolarityCounter, isAboveThreshold, hallSignal1, w2) \<Rightarrow>
               if \<bar>uint posPolarityCounter - uint negPolarityCounter\<bar> \<noteq> uint (ports v) - 2
               then Inr (Return (False, v\<lparr>errors := 2\<rparr>, act (SleepPin (\<not> enableIsHigh v)) w2))
               else Inr (Next (uint posPolarityCounter > uint negPolarityCounter,
                               isAboveThreshold, hallSignal1, w2))))"

text \<open>
  Lines 248-266: the search for the peak of the opposite polarity, timeout 2000 ms. The
  \<open>break\<close> at such a peak skips the \<open>takeSteps\<close> at the end of the round.
\<close>

function locateLoop ::
  "stepperValve \<Rightarrow> byte \<Rightarrow> ulong \<Rightarrow> bool \<Rightarrow> byte \<Rightarrow> bool \<Rightarrow> int \<Rightarrow> world
     \<Rightarrow> fault + (bool \<times> stepperValve \<times> world, byte \<times> int \<times> world) flow" where
  "locateLoop v mul startTime majorityHasPositivePolarity signalCounter isAboveThreshold hallSignal0 w =
     (if uint signalCounter \<le> 2 * uint (ports v) then
        (case millis w of
           Inl e \<Rightarrow> Inl e
         | Inr (now, w1) \<Rightarrow>
             if isTimedOut now startTime 2000
             then Inr (Return (False, v\<lparr>errors := 3\<rparr>, act (SleepPin (\<not> enableIsHigh v)) w1))
             else (case readHallSensorSignal w1 of
                     Inl e \<Rightarrow> Inl e
                   | Inr (hallSignal, w2) \<Rightarrow>
                       let rising = \<not> isAboveThreshold \<and> aboveThreshold v hallSignal;
                           signalCounter1 = (if rising then signalCounter + 1 else signalCounter);
                           isAbove1 = (if rising then True else isAboveThreshold);
                           isAbove2 = (if \<not> aboveThreshold v hallSignal then False else isAbove1)
                       in if rising \<and> (hallSignal > hallSensorIdleSignal v) \<noteq> majorityHasPositivePolarity
                          then Inr (Next (signalCounter1, hallSignal, w2))
                          else locateLoop v mul startTime majorityHasPositivePolarity
                                 signalCounter1 isAbove2 hallSignal (takeSteps v 1 (uint mul) w2)))
      else Inr (Next (signalCounter, hallSignal0, w)))"
  by pat_completeness auto
termination
  by (relation "measure (\<lambda>(v, mul, startTime, majority, signalCounter, isAbove, h, w).
                  length (clock w))")
     (auto simp: millis_def readHallSensorSignal_def takeSteps_def act_def split: list.splits)

declare locateLoop.simps [simp del]

text \<open>Lines 275-286: single steps up the peak of the reference magnet.\<close>

function homeLoop ::
  "stepperValve \<Rightarrow> ulong \<Rightarrow> int \<Rightarrow> int \<Rightarrow> world
     \<Rightarrow> fault + (bool \<times> stepperValve \<times> world, world) flow" where
  "homeLoop v startTime lastRead hallSignal w =
     (if \<bar>lastRead - hallSensorIdleSignal v\<bar> \<le> \<bar>hallSignal - hallSensorIdleSignal v\<bar> then
        (case millis w of
           Inl e \<Rightarrow> Inl e
         | Inr (now, w1) \<Rightarrow>
             if isTimedOut now startTime 2000
             then Inr (Return (False, v\<lparr>errors := 3\<rparr>, act (SleepPin (\<not> enableIsHigh v)) w1))
             else (case readHallSensorSignal (takeSteps v 1 1 w1) of
                     Inl e \<Rightarrow> Inl e
                   | Inr (hallSignal1, w2) \<Rightarrow> homeLoop v startTime hallSignal hallSignal1 w2))
      else Inr (Next w))"
  by pat_completeness auto
termination
  by (relation "measure (\<lambda>(v, startTime, lastRead, h, w). length (clock w))")
     (auto simp: millis_def readHallSensorSignal_def takeSteps_def act_def split: list.splits)

declare homeLoop.simps [simp del]

text \<open>
  Lines 287-292: one step back, driver asleep, then the end of \<open>initializeValve\<close>; the
  result of \<open>gotoPosition(0)\<close> is dropped.
\<close>

definition finalize :: "stepperValve \<Rightarrow> world \<Rightarrow> fault + bool \<times> stepperValve \<times> world" where
  "finalize v w =
     (case gotoPosition (v\<lparr>currentPos := reversedPolarityPos v\<rparr>) 0
             (act (SleepPin (\<not> enableIsHigh v)) (takeSteps v (- 1) 1 w)) of
        Inl e \<Rightarrow> Inl e
      | Inr (r, v1, w1) \<Rightarrow> Inr (True, v1\<lparr>errors := 0\<rparr>, w1))"

text \<open>
  Lines 241-292: reference localization, fine homing and the end of the function. When
  the census ended on the reference magnet, line 246 stores the reference port at once
  and the search loop is skipped.
\<close>

definition locate ::
  "stepperValve \<Rightarrow> byte \<Rightarrow> bool \<Rightarrow> bool \<Rightarrow> int \<Rightarrow> world
     \<Rightarrow> fault + bool \<times> stepperValve \<times> world" where
  "locate v mul majorityHasPositivePolarity isAboveThreshold hallSignal w =
     (case millis w of
        Inl e \<Rightarrow> Inl e
      | Inr (startTime, w1) \<Rightarrow>
          let onReference =
                (isAboveThreshold
                   \<and> (hallSignal > hallSensorIdleSignal v) \<noteq> majorityHasPositivePolarity);
              v1 = (if onReference then v\<lparr>currentPos := reversedPolarityPos v\<rparr> else v)
          in (case (if onReference
                    then Inr (Next (0, hallSignal, w1))
                    else locateLoop v mul startTime majorityHasPositivePolarity 0 isAboveThreshold
                           hallSignal w1) of
                Inl e \<Rightarrow> Inl e
              | Inr (Return r) \<Rightarrow> Inr r
              | Inr (Next (signalCounter, hallSignal1, w2)) \<Rightarrow>
                  if uint signalCounter \<ge> 2 * uint (ports v1)
                  then Inr (False, v1\<lparr>errors := 2\<rparr>, act (SleepPin (\<not> enableIsHigh v1)) w2)
                  else
                    (case homeLoop v1 startTime hallSignal1 hallSignal1 w2 of
                       Inl e \<Rightarrow> Inl e
                     | Inr (Return r) \<Rightarrow> Inr r
                     | Inr (Next w3) \<Rightarrow> finalize v1 w3)))"

text \<open>Lines 173-292: what \<open>initializeValve\<close> does once the sensor has responded.\<close>

definition afterSensorCheck ::
  "stepperValve \<Rightarrow> byte \<Rightarrow> int \<Rightarrow> world \<Rightarrow> fault + bool \<times> stepperValve \<times> world" where
  "afterSensorCheck v mul n w =
     (case calibrate v mul n w of
        Inl e \<Rightarrow> Inl e
      | Inr (v1, w1) \<Rightarrow>
          (case census v1 mul n w1 of
             Inl e \<Rightarrow> Inl e
           | Inr (Return r) \<Rightarrow> Inr r
           | Inr (Next (majorityHasPositivePolarity, isAboveThreshold, hallSignal, w2)) \<Rightarrow>
               locate v1 mul majorityHasPositivePolarity isAboveThreshold hallSignal w2))"

text \<open>
  \<open>SwitchingValve::initializeValve\<close>. The declarations at its head take one reading
  (line 153) and size the array \<open>sensorSignals\<close> (line 158) before the sensor check.
\<close>

definition initializeValve :: "stepperValve \<Rightarrow> world \<Rightarrow> fault + bool \<times> stepperValve \<times> world" where
  "initializeValve v w =
     (case readHallSensorSignal w of
        Inl e \<Rightarrow> Inl e
      | Inr (hallSignal0, w0) \<Rightarrow>
          (case sampleCount v (word_of_int (3 * microSteppingFactor v)) of
             Inl e \<Rightarrow> Inl e
           | Inr n \<Rightarrow>
               (case accumulateReads 0 0 w0 of
                  Inl e \<Rightarrow> Inl e
                | Inr (idleSum, w1) \<Rightarrow>
                    if idleSum = 0
                    then Inr (False, v\<lparr>hallSensorThreshold := 0, hallSensorIdleSignal := idleSum,
                                       errors := 1\<rparr>, w1)
                    else afterSensorCheck (v\<lparr>hallSensorThreshold := 0, hallSensorIdleSignal := idleSum\<rparr>)
                           (word_of_int (3 * microSteppingFactor v)) n w1)))"

section \<open>What the scans and counting loops compute\<close>

text \<open>
  Functions on lists of readings that follow the tests of the loops above; the
  properties below relate them to the loops and are stated in their terms.
\<close>

text \<open>
  The readings that the scans of lines 159-165 (DC) and 183-189 (stepper) select: those
  not above either neighbour, in the order in which they are found.
\<close>

fun localMinima :: "int list \<Rightarrow> int list" where
  "localMinima (a # b # c # rest) =
     (if a \<ge> b \<and> c \<ge> b then b # localMinima (b # c # rest) else localMinima (b # c # rest))"
| "localMinima sensorSignals = []"



text \<open>
  The peaks of a list of readings, counted by polarity as the census loops do: a reading
  counts as a peak when it is at or beyond the threshold and the reading before it
  (at the start: the flag \<open>isAboveThreshold\<close>) was not; it is a positive peak when it
  lies above the idle signal. The result is (positive, negative).
\<close>

fun polarityCounts :: "'a valve_scheme \<Rightarrow> bool \<Rightarrow> int list \<Rightarrow> nat \<times> nat" where
  "polarityCounts v isAboveThreshold [] = (0, 0)"
| "polarityCounts v isAboveThreshold (h # hs) =
     (case polarityCounts v (aboveThreshold v h) hs of
        (p, m) \<Rightarrow>
          if \<not> isAboveThreshold \<and> aboveThreshold v h
          then (if h > hallSensorIdleSignal v then (Suc p, m) else (p, Suc m))
          else (p, m))"

text \<open>
  The number of peaks of a list of readings, of either polarity, and the number of peaks
  whose polarity is not that of the majority: the peaks at which the search loops of
  lines 248-266 (stepper) and 217-234 (DC) stop.
\<close>

definition peakCount :: "'a valve_scheme \<Rightarrow> bool \<Rightarrow> int list \<Rightarrow> nat" where
  "peakCount v isAboveThreshold hs =
     fst (polarityCounts v isAboveThreshold hs) + snd (polarityCounts v isAboveThreshold hs)"

definition minorityCount :: "'a valve_scheme \<Rightarrow> bool \<Rightarrow> bool \<Rightarrow> int list \<Rightarrow> nat" where
  "minorityCount v majorityHasPositivePolarity isAboveThreshold hs =
     (if majorityHasPositivePolarity
      then snd (polarityCounts v isAboveThreshold hs)
      else fst (polarityCounts v isAboveThreshold hs))"


section \<open>Example configurations\<close>

text \<open>The default six-port stepper valve and ten-port DC valve of the constructors.\<close>

definition stepper6 :: stepperValve where
  "stepper6 = \<lparr>currentPos = 0, errors = 0, hallSensorIdleSignal = 512, hallSensorThreshold = 55,
      reversedPolarityPos = 3, ports = 6, clockwiseNumbering = False,
      microSteppingFactor = 1, stepsPerRevolution = 200, stepsPerSecond = 400,
      enableIsHigh = True\<rparr>"

definition dc10 :: valve where
  "dc10 = \<lparr>currentPos = 0, errors = 0, hallSensorIdleSignal = 512, hallSensorThreshold = 55,
      reversedPolarityPos = 5, ports = 10, clockwiseNumbering = False\<rparr>"

text \<open>
  A stepper valve that does not move the magnets past the sensor: the signal stays at
  the idle level while the clock runs past the 2000 ms budget.
\<close>

definition stalledWorld :: world where
  "stalledWorld = \<lparr>sensor = [512, 512, 512], clock = [0, 600, 1300, 1900, 2001],
      motor = [], garbage = 0\<rparr>"

definition lateWorld :: world where
  "lateWorld = \<lparr>sensor = [], clock = [10, 2011], motor = [], garbage = 0\<rparr>"

text \<open>A DC valve whose sensor reads the same non-zero value all the time.\<close>

definition flatWorld :: world where
  "flatWorld = \<lparr>sensor = replicate 516 512, clock = [], motor = [], garbage = 0\<rparr>"

text \<open>
  A three-port stepper valve with 60 steps per revolution (21 readings per rotation)
  and a three-port DC valve, both as they are after a calibration.
\<close>

definition stepper3 :: stepperValve where
  "stepper3 = \<lparr>currentPos = 0, errors = 0, hallSensorIdleSignal = 512, hallSensorThreshold = 54,
      reversedPolarityPos = 1, ports = 3, clockwiseNumbering = False,
      microSteppingFactor = 1, stepsPerRevolution = 60, stepsPerSecond = 400,
      enableIsHigh = True\<rparr>"

definition dc3 :: valve where
  "dc3 = \<lparr>currentPos = 0, errors = 0, hallSensorIdleSignal = 512, hallSensorThreshold = 60,
      reversedPolarityPos = 1, ports = 3, clockwiseNumbering = False\<rparr>"

text \<open>A valve that stands still while the clock jumps past every time budget.\<close>

definition homedWorld :: world where
  "homedWorld = \<lparr>sensor = [512, 512], clock = [1000, 3001], motor = [], garbage = 0\<rparr>"

text \<open>A sensor that does not respond.\<close>

definition deadWorld :: world where
  "deadWorld = \<lparr>sensor = [0, 0, 0, 0], clock = [], motor = [], garbage = 0\<rparr>"

text \<open>
  The three-port stepper valve turning past its magnets (two of positive polarity, the
  reference magnet of negative polarity, seven readings each) until it has homed on
  the reference magnet; then it stands still and the clock jumps.
\<close>

definition rotationWorld :: world where
  "rotationWorld = \<lparr>sensor =
      [500, 512, 512, 512, 512, 512, 560, 660, 560, 512, 512, 512, 512, 464,
      364, 464, 512, 512, 512, 512, 560, 660, 560, 512, 512, 512, 512, 512,
      560, 660, 560, 512, 512, 512, 512, 464, 364, 464, 512, 512, 512, 512,
      560, 660, 560, 512, 512, 512, 512, 560, 660, 560, 512, 512, 512, 512,
      464, 364, 464, 512, 512],
    clock = [100, 110, 120, 130, 140, 150, 160, 170, 180, 190, 200, 210, 220,
            1000, 3001],
    motor = [], garbage = 0\<rparr>"



text \<open>
  Readings of a stepper valve past one magnet of positive and of negative polarity
  (eleven readings each), and one rotation over a list of magnets after a first reading.
\<close>

definition magnetPos :: "int list" where
  "magnetPos = [512, 512, 512, 560, 660, 560, 512, 512, 512, 512, 512]"

definition magnetNeg :: "int list" where
  "magnetNeg = [512, 512, 512, 464, 364, 464, 512, 512, 512, 512, 512]"

definition rotation :: "int list list \<Rightarrow> world" where
  "rotation magnets = \<lparr>sensor = 512 # concat magnets @ [512], clock = [], motor = [], garbage = 0\<rparr>"

text \<open>
  A whole run of the stepper \<open>initializeValve\<close> over a list of magnets: four readings at
  rest, the rotation of the calibration and the rotation of the census.
\<close>

definition initWorld :: "int list list \<Rightarrow> world" where
  "initWorld magnets = \<lparr>sensor = [512, 512, 512, 512] @ concat magnets @ [512]
      @ 512 # concat magnets @ [512], clock = [], motor = [], garbage = 0\<rparr>"

text \<open>
  A calibrated six-port DC valve, and readings of a DC valve that alternate between the
  given peak values and the idle level, with the given values of the clock.
\<close>

definition dc6 :: valve where
  "dc6 = \<lparr>currentPos = 0, errors = 0, hallSensorIdleSignal = 512, hallSensorThreshold = 60,
      reversedPolarityPos = 3, ports = 6, clockwiseNumbering = False\<rparr>"

definition peakTrain :: "int list \<Rightarrow> int list" where
  "peakTrain peaks = concat (map (\<lambda>p. [p, 512]) peaks)"

definition censusWorldDC :: "int list \<Rightarrow> ulong list \<Rightarrow> world" where
  "censusWorldDC peaks ticks = \<lparr>sensor = 512 # peakTrain peaks,
      clock = ticks, motor = [], garbage = 0\<rparr>"

text \<open>
  A whole run of \<open>initializeValve\<close> of a DC valve all of whose magnets have the same
  polarity: three readings at rest, then the signal climbs by 30 per reading from the idle
  level 512 to the peak 662 of each magnet and falls back, while the clock runs past the
  3000 ms of the census.
\<close>

definition uniformWorld :: world where
  "uniformWorld = \<lparr>sensor = [512, 512, 512]
      @ take 517 (concat (replicate 52 [542, 572, 602, 632, 662, 632, 602, 572, 542, 512])),
      clock = [0, 1000, 2000, 3001], motor = [], garbage = 0\<rparr>"

text \<open>
  A whole run of \<open>initializeValve\<close> of a six-port DC valve with two reversed magnets
  side by side, the signal climbing and falling by 30 per reading as above, with one
  millisecond between the calls of \<open>millis()\<close>.
\<close>

definition pairWorld :: world where
  "pairWorld = \<lparr>sensor = [512, 512, 512]
      @ take 640 (concat (replicate 11
          [542, 572, 602, 632, 662, 632, 602, 572, 542, 512,
           542, 572, 602, 632, 662, 632, 602, 572, 542, 512,
           542, 572, 602, 632, 662, 632, 602, 572, 542, 512,
           542, 572, 602, 632, 662, 632, 602, 572, 542, 512,
           482, 452, 422, 392, 362, 392, 422, 452, 482, 512,
           482, 452, 422, 392, 362, 392, 422, 452, 482, 512])),
      clock = map of_nat [0..<130], motor = [], garbage = 0\<rparr>"

text \<open>
  A valve turning past magnets with the given peak readings while the clock advances by
  10 ms per call, and a valve that passes two magnets of the same polarity in three seconds.
\<close>

definition searchWorld :: "int list \<Rightarrow> world" where
  "searchWorld peaks = \<lparr>sensor = peakTrain peaks,
      clock = [0, 10, 20, 30, 40, 50, 60, 70, 80, 90, 100, 110, 120, 130, 140, 5000],
      motor = [], garbage = 0\<rparr>"

definition slowWorld :: world where
  "slowWorld = \<lparr>sensor = [660, 512, 660, 512, 512], clock = [0, 1000, 2000, 3000, 3001, 3011],
      motor = [], garbage = 0\<rparr>"

section \<open>Properties\<close>

subsection \<open>The environment\<close>

lemma clock_act [simp]: "clock (act a w) = clock w"
  by (simp add: act_def)

lemma sensor_act [simp]: "sensor (act a w) = sensor w"
  by (simp add: act_def)

lemma garbage_act [simp]: "garbage (act a w) = garbage w"
  by (simp add: act_def)

lemma millisE:
  assumes "millis w = Inr (t, w1)"
  obtains "clock w = t # clock w1" and "length (clock w1) < length (clock w)"
    and "sensor w1 = sensor w" and "motor w1 = motor w" and "garbage w1 = garbage w"
  using assms by (auto simp: millis_def split: list.splits)

lemma readE:
  assumes "readHallSensorSignal w = Inr (h, w1)"
  obtains "sensor w = h # sensor w1" and "length (sensor w1) < length (sensor w)"
    and "clock w1 = clock w" and "motor w1 = motor w" and "garbage w1 = garbage w"
  using assms by (auto simp: readHallSensorSignal_def split: list.splits)

lemma read_Cons: "sensor w = h # hs \<Longrightarrow> readHallSensorSignal w = Inr (h, w\<lparr>sensor := hs\<rparr>)"
  by (simp add: readHallSensorSignal_def)

lemma millis_Cons: "clock w = t # ts \<Longrightarrow> millis w = Inr (t, w\<lparr>clock := ts\<rparr>)"
  by (simp add: millis_def)

lemma turning_fields [simp]:
  "clock (startTurning v d w) = clock w" "sensor (startTurning v d w) = sensor w"
  "garbage (startTurning v d w) = garbage w"
  "clock (stopTurning w) = clock w" "sensor (stopTurning w) = sensor w"
  "garbage (stopTurning w) = garbage w"
  by (simp_all add: startTurning_def stopTurning_def)

lemma takeSteps_fields [simp]:
  "clock (takeSteps v d k w) = clock w" "sensor (takeSteps v d k w) = sensor w"
  "garbage (takeSteps v d k w) = garbage w"
  by (simp_all add: takeSteps_def act_def)

subsection \<open>Circular arithmetic\<close>

lemma c_rem_nonneg: "0 \<le> x \<Longrightarrow> 0 < y \<Longrightarrow> c_rem x y = x mod y"
  by (cases "x = 0") (simp_all add: c_rem_def)

lemma c_rem_nonpos: "x \<le> 0 \<Longrightarrow> 0 < y \<Longrightarrow> c_rem x y = - ((- x) mod y)"
  by (cases "x = 0") (simp_all add: c_rem_def)

lemma mod_c_eq_mod:
  assumes "0 < y"
  shows "mod_c x y = x mod y"
proof (cases "x < 0")
  case False
  with assms show ?thesis by (simp add: mod_c_def c_rem_nonneg)
next
  case True
  define k where "k = - x - 1"
  have k: "0 \<le> k" "x = - k - 1" using True by (simp_all add: k_def)
  have "mod_c x y = y - 1 - k mod y"
    using True assms k by (simp add: mod_c_def c_rem_nonpos)
  also have "\<dots> = (- k - 1) mod y"
  proof -
    have "(y - 1 - k mod y) mod y = (y - 1 - k) mod y"
      by (simp add: mod_diff_right_eq)
    also have "y - 1 - k = - k - 1 + y"
      by simp
    also have "(- k - 1 + y) mod y = (- k - 1) mod y"
      by (rule mod_add_self2)
    finally have "(- k - 1) mod y = (y - 1 - k mod y) mod y"
      by simp
    also have "\<dots> = y - 1 - k mod y"
    proof (rule mod_pos_pos_trivial)
      have "0 \<le> k mod y" and "k mod y < y" using assms by simp_all
      then show "0 \<le> y - 1 - k mod y" and "y - 1 - k mod y < y" by linarith+
    qed
    finally show ?thesis by simp
  qed
  finally show ?thesis using k by simp
qed

lemma forwardDistance_range:
  assumes "ports v \<noteq> 0"
  shows "0 \<le> forwardDistance v t \<and> forwardDistance v t < uint (ports v)"
proof -
  have "uint (ports v) \<noteq> 0" using assms by (simp add: uint_0_iff)
  then have "0 < uint (ports v)" using uint_nonnegative [of "ports v"] by linarith
  then show ?thesis by (simp add: forwardDistance_def mod_c_eq_mod)
qed

text \<open>
  C2, as stated, fails: with six ports, from position 0 to target 3 the forward distance
  is exactly half the port count, and the code turns backward (\<open>dir = -1\<close>); the DC
  variant takes its else-branch as well.
\<close>

theorem gotoPlan_tie_counterexample:
  "\<not> (2 * forwardDistance stepper6 3 = uint (ports stepper6) \<longrightarrow> fst (gotoPlan stepper6 3) = 1)
   \<and> \<not> (2 * forwardDistance dc10 5 = uint (ports dc10) \<longrightarrow> fst (gotoPlanDC dc10 5) = False)"
  by (simp add: gotoPlan_def gotoPlanDC_def forwardDistance_def mod_c_def c_rem_def
        stepper6_def dc10_def)

text \<open>
  C2, amended. For every current position and target of a valve with at least one port,
  \<open>gotoPosition\<close> computes the forward distance \<open>f = (target - current) mod N\<close> and the
  backward distance \<open>b = N - f\<close>, so \<open>f + b = N\<close>. When \<open>2 f + 1 < N\<close> it takes the
  first direction (\<open>dir = 1\<close>, in the DC variant \<open>dirIncreasing = false\<close>) with \<open>f\<close>
  transitions, and when \<open>N \<le> 2 f\<close> the opposite direction with \<open>b\<close> transitions: a tie
  (\<open>2 f = N\<close>) goes backward. In both cases the number of transitions is
  \<open>min f (N - f)\<close>.
\<close>

theorem gotoPlan_direction:
  assumes "ports v \<noteq> 0"
  shows "forwardDistance v t = (uint t - uint (currentPos v)) mod uint (ports v)
     \<and> (2 * forwardDistance v t + 1 < uint (ports v) \<longrightarrow>
            gotoPlan v t = (1, forwardDistance v t)
          \<and> gotoPlanDC v t = (False, forwardDistance v t)
          \<and> forwardDistance v t = min (forwardDistance v t) (uint (ports v) - forwardDistance v t))
     \<and> (uint (ports v) \<le> 2 * forwardDistance v t \<longrightarrow>
            gotoPlan v t = (- 1, uint (ports v) - forwardDistance v t)
          \<and> gotoPlanDC v t = (True, uint (ports v) - forwardDistance v t)
          \<and> forwardDistance v t + snd (gotoPlan v t) = uint (ports v)
          \<and> forwardDistance v t + snd (gotoPlanDC v t) = uint (ports v)
          \<and> uint (ports v) - forwardDistance v t
               = min (forwardDistance v t) (uint (ports v) - forwardDistance v t))"
proof -
  have "uint (ports v) \<noteq> 0" using assms by (simp add: uint_0_iff)
  then have pos: "0 < uint (ports v)" using uint_nonnegative [of "ports v"] by linarith
  have f: "forwardDistance v t = (uint t - uint (currentPos v)) mod uint (ports v)"
    using pos by (simp add: forwardDistance_def mod_c_eq_mod)
  have fwd: "forwardDistance v t < uint (ports v) div 2"
    if "2 * forwardDistance v t + 1 < uint (ports v)"
    using that by linarith
  have bwd: "\<not> forwardDistance v t < uint (ports v) div 2"
    if "uint (ports v) \<le> 2 * forwardDistance v t"
    using that by linarith
  show ?thesis
    using f fwd bwd by (auto simp: gotoPlan_def gotoPlanDC_def)
qed

theorem gotoPlan_direction_witness:
  "ports stepper6 \<noteq> 0
   \<and> forwardDistance stepper6 1 = 1 \<and> 2 * forwardDistance stepper6 1 + 1 < uint (ports stepper6)
   \<and> gotoPlan stepper6 1 = (1, 1) \<and> gotoPlanDC stepper6 1 = (False, 1)
   \<and> forwardDistance stepper6 3 = 3 \<and> uint (ports stepper6) \<le> 2 * forwardDistance stepper6 3
   \<and> gotoPlan stepper6 3 = (- 1, 3) \<and> gotoPlanDC stepper6 3 = (True, 3)
   \<and> forwardDistance (stepper6\<lparr>currentPos := 4\<rparr>) 0 = 2
   \<and> gotoPlan (stepper6\<lparr>currentPos := 4\<rparr>) 0 = (1, 2)"
  using gotoPlan_direction [of stepper6 1] gotoPlan_direction [of stepper6 3]
    gotoPlan_direction [of "stepper6\<lparr>currentPos := 4\<rparr>" 0]
  by (simp add: stepper6_def)

text \<open>
  The statement above is silent about the one remaining case, an odd port count with
  \<open>2 f + 1 = N\<close>. There the test \<open>f < ports/2\<close>, with its integer division, fails, and
  the valve goes backward although the forward way is shorter: with five ports and
  \<open>f = 2\<close> it travels three transitions backward.
\<close>

lemma gotoPlan_odd_middle:
  "forwardDistance (stepper6\<lparr>ports := 5\<rparr>) 2 = 2
   \<and> gotoPlan (stepper6\<lparr>ports := 5\<rparr>) 2 = (- 1, 3)
   \<and> gotoPlanDC (dc10\<lparr>ports := 5\<rparr>) 2 = (True, 3)"
  by (simp add: gotoPlan_def gotoPlanDC_def forwardDistance_def mod_c_def c_rem_def
        stepper6_def dc10_def)

subsection \<open>What a call of \<open>gotoPosition\<close> can return\<close>

lemma gotoLoopDC_Return:
  "gotoLoopDC v st ss sc ia w = Inr (Return r)
     \<Longrightarrow> \<exists>w'. r = (False, v\<lparr>errors := 3\<rparr>, stopTurning w')"
proof (induction v st ss sc ia w rule: gotoLoopDC.induct)
  case (1 v st ss sc ia w)
  from "1.prems" "1.IH" show ?case
    by (subst (asm) gotoLoopDC.simps)
       (auto split: if_splits sum.splits simp: Let_def)
qed

text \<open>
  The DC variant keeps the contract: it returns \<open>false\<close> only with error 3 and the
  position untouched, and \<open>true\<close> only with the target stored and the error cleared; in
  both cases the motor is stopped last.
\<close>

lemma gotoPositionDC_result:
  assumes "gotoPositionDC v t w = Inr (r, v', w')"
  shows "(if r then v' = v\<lparr>currentPos := t, errors := 0\<rparr> else v' = v\<lparr>errors := 3\<rparr>)
         \<and> (\<exists>w0. w' = stopTurning w0)"
  using assms
  by (auto simp: gotoPositionDC_def split: sum.splits if_splits prod.splits flow.splits
           dest!: gotoLoopDC_Return)

lemma coarseLoop_Return:
  "coarseLoop v st d ss m sc ia h w = Inr (Return r)
     \<Longrightarrow> \<exists>w'. r = (True, v\<lparr>errors := 3\<rparr>, act (SleepPin (\<not> enableIsHigh v)) w')"
proof (induction v st d ss m sc ia h w rule: coarseLoop.induct)
  case (1 v st d ss m sc ia h w)
  from "1.prems" "1.IH" show ?case
    by (subst (asm) coarseLoop.simps)
       (auto split: if_splits sum.splits simp: Let_def)
qed

lemma fineLoop_Return:
  "fineLoop v st d ia l h w = Inr (Return r)
     \<Longrightarrow> \<exists>w'. r = (False, v\<lparr>errors := 3\<rparr>, act (SleepPin (\<not> enableIsHigh v)) w')"
proof (induction v st d ia l h w rule: fineLoop.induct)
  case (1 v st d ia l h w)
  from "1.prems" "1.IH" show ?case
    by (subst (asm) fineLoop.simps)
       (auto split: if_splits sum.splits simp: Let_def)
qed

text \<open>
  The stepper variant either stores the target, clears the error and returns \<open>true\<close>,
  or leaves the position and sets error 3; the returned value of the second case is
  not determined by the error. The driver is put to sleep last in both cases.
\<close>

lemma gotoPosition_result:
  assumes "gotoPosition v t w = Inr (r, v', w')"
  shows "(v' = v\<lparr>currentPos := t, errors := 0\<rparr> \<and> r \<or> v' = v\<lparr>errors := 3\<rparr>)
         \<and> (\<exists>w0. w' = act (SleepPin (\<not> enableIsHigh v)) w0)"
  using assms
  by (auto simp: gotoPosition_def split: sum.splits if_splits prod.splits flow.splits
           dest!: coarseLoop_Return fineLoop_Return)

text \<open>
  C1. A stepper valve whose signal never leaves the idle level runs out of its 2000 ms
  in the coarse phase of \<open>gotoPosition(4)\<close>: the driver is put to sleep, the error code
  is 3 and the position is unchanged, but the call returns \<open>true\<close>.
\<close>

theorem gotoPosition_coarse_timeout_returns_true:
  "gotoPosition stepper6 4 stalledWorld =
     Inr (True, stepper6\<lparr>errors := 3\<rparr>,
          \<lparr>sensor = [], clock = [],
           motor = [SleepPin True, Steps (- 3), Steps (- 3), Steps (- 3), Steps (- 3), SleepPin False],
           garbage = 0\<rparr>)"
  by (simp add: gotoPosition_def stepper6_def stalledWorld_def millis_def readHallSensorSignal_def
        gotoPlan_def forwardDistance_def mod_c_def c_rem_def coarseLoop.simps isTimedOut_def
        takeSteps_def act_def aboveThreshold_def)

text \<open>
  C3. The call \<open>gotoPosition(1)\<close> of a stepper valve at position 0 whose first timeout
  check already fails returns \<open>true\<close> with the position still 0 and the error code 3.
\<close>

theorem gotoPosition_true_without_arrival:
  "map_sum id (\<lambda>(r, v', w'). (r, currentPos v', errors v')) (gotoPosition stepper6 1 lateWorld)
     = Inr (True, 0, 3)"
  by (simp add: gotoPosition_def stepper6_def lateWorld_def millis_def
        gotoPlan_def forwardDistance_def mod_c_def c_rem_def coarseLoop.simps isTimedOut_def
        takeSteps_def act_def)

subsection \<open>What a call of \<open>initializeValve\<close> can return\<close>

lemma locateLoopDC_Return:
  "locateLoopDC v st maj sc ia w = Inr (Return r)
     \<Longrightarrow> fst r = False \<and> fst (snd r) = v\<lparr>errors := 3\<rparr>"
proof (induction "length (clock w)" arbitrary: maj sc ia w rule: less_induct)
  case less
  note IH = less.hyps [rotated]
  from less.prems show ?case
    by (subst (asm) locateLoopDC.simps)
       (auto split: if_splits sum.splits simp: Let_def dest!: IH elim!: millisE readE)
qed

lemma censusLoopDC_Return:
  "censusLoopDC v st sc p n ia h w = Inr (Return r)
     \<Longrightarrow> fst r = False \<and> fst (snd r) = v\<lparr>errors := 3\<rparr>"
proof (induction "length (clock w)" arbitrary: sc p n ia h w rule: less_induct)
  case less
  note IH = less.hyps [rotated]
  from less.prems show ?case
    by (subst (asm) censusLoopDC.simps)
       (auto split: if_splits sum.splits simp: Let_def dest!: IH elim!: millisE readE)
qed

lemma accumulateReads_eq:
  assumes "sensor w = a # b # c # rest"
  shows "accumulateReads 0 0 w = Inr (a + b + c, w\<lparr>sensor := rest\<rparr>)"
proof -
  have 3: "accumulateReads 3 s w' = Inr (s, w')" for s w'
    by (simp add: accumulateReads.simps)
  have 2: "accumulateReads 2 s (w\<lparr>sensor := c # rest\<rparr>) = Inr (s + c, w\<lparr>sensor := rest\<rparr>)" for s
    by (subst accumulateReads.simps) (simp add: read_Cons 3)
  have 1: "accumulateReads 1 s (w\<lparr>sensor := b # c # rest\<rparr>) = Inr (s + b + c, w\<lparr>sensor := rest\<rparr>)" for s
    by (subst accumulateReads.simps) (simp add: read_Cons 2)
  show ?thesis
    using assms by (subst accumulateReads.simps) (simp add: read_Cons 1)
qed

lemma censusDC_Return:
  "censusDC v w = Inr (Return r)
     \<Longrightarrow> fst r = False \<and> (fst (snd r) = v\<lparr>errors := 3\<rparr> \<or> fst (snd r) = v\<lparr>errors := 2\<rparr>)"
  by (auto simp: censusDC_def split: sum.splits flow.splits if_splits dest!: censusLoopDC_Return)

lemma finalizeDC_result:
  "finalizeDC v w = Inr (r, v', w') \<Longrightarrow> r \<and> errors v' = 0"
  by (auto simp: finalizeDC_def split: sum.splits)

lemma locateDC_result:
  "locateDC v maj ia h w = Inr (r, v', w')
     \<Longrightarrow> (r \<and> errors v' = 0) \<or> (\<not> r \<and> (errors v' = 2 \<or> errors v' = 3))"
  by (auto simp: locateDC_def Let_def split: sum.splits flow.splits if_splits
           dest!: locateLoopDC_Return finalizeDC_result)

lemma afterSensorCheckDC_result:
  "afterSensorCheckDC v w = Inr (r, v', w')
     \<Longrightarrow> (r \<and> errors v' = 0) \<or> (\<not> r \<and> (errors v' = 2 \<or> errors v' = 3))"
  by (auto simp: afterSensorCheckDC_def split: sum.splits flow.splits
           dest!: censusDC_Return locateDC_result)

lemma census_Return:
  "census v mul n w = Inr (Return r)
     \<Longrightarrow> fst r = False \<and> fst (snd r) = v\<lparr>errors := 2\<rparr>"
  by (auto simp: census_def split: sum.splits if_splits)

lemma locateLoop_Return:
  "locateLoop v mul st maj sc ia h w = Inr (Return r)
     \<Longrightarrow> fst r = False \<and> fst (snd r) = v\<lparr>errors := 3\<rparr>"
proof (induction "length (clock w)" arbitrary: maj sc ia h w rule: less_induct)
  case less
  note IH = less.hyps [rotated]
  from less.prems show ?case
    by (subst (asm) locateLoop.simps)
       (auto split: if_splits sum.splits simp: Let_def dest!: IH elim!: millisE readE)
qed

lemma homeLoop_Return:
  "homeLoop v st l h w = Inr (Return r)
     \<Longrightarrow> fst r = False \<and> fst (snd r) = v\<lparr>errors := 3\<rparr>"
proof (induction "length (clock w)" arbitrary: l h w rule: less_induct)
  case less
  note IH = less.hyps [rotated]
  from less.prems show ?case
    by (subst (asm) homeLoop.simps)
       (auto split: if_splits sum.splits simp: Let_def dest!: IH elim!: millisE readE)
qed

lemma finalize_result:
  "finalize v w = Inr (r, v', w') \<Longrightarrow> r \<and> errors v' = 0"
  by (auto simp: finalize_def split: sum.splits)

lemma locate_result:
  "locate v mul maj ia h w = Inr (r, v', w')
     \<Longrightarrow> (r \<and> errors v' = 0) \<or> (\<not> r \<and> (errors v' = 2 \<or> errors v' = 3))"
  by (auto simp: locate_def Let_def split: sum.splits flow.splits if_splits
           dest!: locateLoop_Return homeLoop_Return finalize_result)

lemma afterSensorCheck_result:
  "afterSensorCheck v mul n w = Inr (r, v', w')
     \<Longrightarrow> (r \<and> errors v' = 0) \<or> (\<not> r \<and> (errors v' = 2 \<or> errors v' = 3))"
  by (auto simp: afterSensorCheck_def split: sum.splits flow.splits
           dest!: census_Return locate_result)

text \<open>
  A failure of the census is the result of \<open>initializeValve\<close>; otherwise the result is
  that of the localization which follows.
\<close>

lemma census_then_locate:
  "calibrate v0 mul n w0 = Inr (v, w) \<Longrightarrow> census v mul n w = Inr (Return r)
     \<Longrightarrow> afterSensorCheck v0 mul n w0 = Inr r"
  "calibrate v0 mul n w0 = Inr (v, w) \<Longrightarrow> census v mul n w = Inr (Next (maj, ia, h, w2))
     \<Longrightarrow> afterSensorCheck v0 mul n w0 = locate v mul maj ia h w2"
  "calibrateDC vd0 wd0 = Inr (vd, wd) \<Longrightarrow> censusDC vd wd = Inr (Return rd)
     \<Longrightarrow> afterSensorCheckDC vd0 wd0 = Inr rd"
  "calibrateDC vd0 wd0 = Inr (vd, wd) \<Longrightarrow> censusDC vd wd = Inr (Next (maj, ia, h, wd2))
     \<Longrightarrow> afterSensorCheckDC vd0 wd0 = locateDC vd maj ia h wd2"
  by (simp_all add: afterSensorCheck_def afterSensorCheckDC_def)

text \<open>
  C7. \<open>initializeValve\<close> accumulates three sensor readings (in the stepper variant after
  the one reading of its declarations). If their sum is zero it sets error 1 and
  returns \<open>false\<close>, with no command sent to the actuator; if the sum is not zero it goes
  on with the calibration, and however the call ends, the error code is not 1.
\<close>

theorem sensor_check:
  assumes "sensor w = a # b # c # rest"
      and "sensor ws = h0 # a' # b' # c' # rest'"
      and "sampleCount vs (word_of_int (3 * microSteppingFactor vs)) = Inr n"
  shows "(a + b + c = 0 \<longrightarrow>
            initializeValveDC v w =
              Inr (False, v\<lparr>hallSensorThreshold := 0, hallSensorIdleSignal := 0, errors := 1\<rparr>,
                   w\<lparr>sensor := rest\<rparr>))
       \<and> (a + b + c \<noteq> 0 \<longrightarrow>
            initializeValveDC v w =
              afterSensorCheckDC (v\<lparr>hallSensorThreshold := 0, hallSensorIdleSignal := a + b + c\<rparr>)
                (w\<lparr>sensor := rest\<rparr>)
            \<and> (\<forall>r v' w'. initializeValveDC v w = Inr (r, v', w') \<longrightarrow> errors v' \<noteq> 1))
       \<and> (a' + b' + c' = 0 \<longrightarrow>
            initializeValve vs ws =
              Inr (False, vs\<lparr>hallSensorThreshold := 0, hallSensorIdleSignal := 0, errors := 1\<rparr>,
                   ws\<lparr>sensor := rest'\<rparr>))
       \<and> (a' + b' + c' \<noteq> 0 \<longrightarrow>
            initializeValve vs ws =
              afterSensorCheck (vs\<lparr>hallSensorThreshold := 0, hallSensorIdleSignal := a' + b' + c'\<rparr>)
                (word_of_int (3 * microSteppingFactor vs)) n (ws\<lparr>sensor := rest'\<rparr>)
            \<and> (\<forall>r v' w'. initializeValve vs ws = Inr (r, v', w') \<longrightarrow> errors v' \<noteq> 1))"
proof -
  have dc: "initializeValveDC v w =
      (if a + b + c = 0
       then Inr (False, v\<lparr>hallSensorThreshold := 0, hallSensorIdleSignal := 0, errors := 1\<rparr>,
                 w\<lparr>sensor := rest\<rparr>)
       else afterSensorCheckDC (v\<lparr>hallSensorThreshold := 0, hallSensorIdleSignal := a + b + c\<rparr>)
              (w\<lparr>sensor := rest\<rparr>))"
    using assms(1) by (simp add: initializeValveDC_def accumulateReads_eq)
  have "accumulateReads 0 0 (ws\<lparr>sensor := a' # b' # c' # rest'\<rparr>)
               = Inr (a' + b' + c', ws\<lparr>sensor := rest'\<rparr>)"
    using accumulateReads_eq [of "ws\<lparr>sensor := a' # b' # c' # rest'\<rparr>" a' b' c' rest'] by simp
  then have st: "initializeValve vs ws =
      (if a' + b' + c' = 0
       then Inr (False, vs\<lparr>hallSensorThreshold := 0, hallSensorIdleSignal := 0, errors := 1\<rparr>,
                 ws\<lparr>sensor := rest'\<rparr>)
       else afterSensorCheck (vs\<lparr>hallSensorThreshold := 0, hallSensorIdleSignal := a' + b' + c'\<rparr>)
              (word_of_int (3 * microSteppingFactor vs)) n (ws\<lparr>sensor := rest'\<rparr>))"
    using assms(2,3) by (simp add: initializeValve_def read_Cons)
  have "errors v' \<noteq> 1" if "afterSensorCheckDC vx wx = Inr (r, v', w')" for vx wx r v' w'
    using afterSensorCheckDC_result [OF that] by auto
  moreover have "errors v' \<noteq> 1" if "afterSensorCheck vx m k wx = Inr (r, v', w')" for vx m k wx r v' w'
    using afterSensorCheck_result [OF that] by auto
  ultimately show ?thesis
    using dc st by auto
qed

theorem sensor_check_witness:
  "initializeValveDC dc10 deadWorld =
     Inr (False, dc10\<lparr>hallSensorThreshold := 0, hallSensorIdleSignal := 0, errors := 1\<rparr>,
          deadWorld\<lparr>sensor := [0]\<rparr>)
   \<and> initializeValve stepper3 deadWorld =
     Inr (False, stepper3\<lparr>hallSensorThreshold := 0, hallSensorIdleSignal := 0, errors := 1\<rparr>,
          deadWorld\<lparr>sensor := []\<rparr>)
   \<and> initializeValveDC dc10 rotationWorld =
     afterSensorCheckDC (dc10\<lparr>hallSensorThreshold := 0, hallSensorIdleSignal := 1524\<rparr>)
       (rotationWorld\<lparr>sensor := drop 3 (sensor rotationWorld)\<rparr>)
   \<and> initializeValve stepper3 rotationWorld =
     afterSensorCheck (stepper3\<lparr>hallSensorThreshold := 0, hallSensorIdleSignal := 1536\<rparr>) 3 21
       (rotationWorld\<lparr>sensor := drop 4 (sensor rotationWorld)\<rparr>)"
proof -
  have n: "sampleCount stepper3 (word_of_int (3 * microSteppingFactor stepper3)) = Inr 21"
    by (simp add: sampleCount_def stepper3_def)
  have d: "sensor deadWorld = 0 # 0 # 0 # [0]" "sensor deadWorld = 0 # 0 # 0 # 0 # []"
    by (simp_all add: deadWorld_def)
  have r: "sensor rotationWorld = 500 # 512 # 512 # drop 3 (sensor rotationWorld)"
    "sensor rotationWorld = 500 # 512 # 512 # 512 # drop 4 (sensor rotationWorld)"
    by (simp_all add: rotationWorld_def)
  show ?thesis
    using sensor_check [OF d(1) r(2) n, of dc10] sensor_check [OF r(1) d(2) n, of dc10]
    by (simp add: stepper3_def)
qed

subsection \<open>The end of \<open>initializeValve\<close>\<close>

text \<open>
  C9. When \<open>initializeValve\<close> reaches its last lines, whatever the inner call
  \<open>gotoPosition(0)\<close> returns, \<open>initializeValve\<close> returns \<open>true\<close> with the error code
  cleared; when that inner call has timed out (error 3), the position stored is still the
  reference port, not 0.
\<close>

theorem finalize_clears_error:
  assumes "gotoPosition (v\<lparr>currentPos := reversedPolarityPos v\<rparr>) 0
             (act (SleepPin (\<not> enableIsHigh v)) (takeSteps v (- 1) 1 w)) = Inr (r, v1, w1)"
      and "gotoPositionDC (vd\<lparr>currentPos := reversedPolarityPos vd\<rparr>) 0 wd = Inr (rd, vd1, wd1)"
  shows "finalize v w = Inr (True, v1\<lparr>errors := 0\<rparr>, w1)
       \<and> (errors v1 = 3 \<longrightarrow> v1\<lparr>errors := 0\<rparr> = v\<lparr>currentPos := reversedPolarityPos v, errors := 0\<rparr>)
       \<and> finalizeDC vd wd = Inr (True, vd1\<lparr>errors := 0\<rparr>, wd1)
       \<and> (\<not> rd \<longrightarrow> errors vd1 = 3
             \<and> vd1\<lparr>errors := 0\<rparr> = vd\<lparr>currentPos := reversedPolarityPos vd, errors := 0\<rparr>)"
proof -
  from gotoPosition_result [OF assms(1)]
  have "errors v1 = 3 \<longrightarrow> v1 = v\<lparr>currentPos := reversedPolarityPos v, errors := 3\<rparr>"
    by auto
  moreover from gotoPositionDC_result [OF assms(2)]
  have "\<not> rd \<longrightarrow> vd1 = vd\<lparr>currentPos := reversedPolarityPos vd, errors := 3\<rparr>"
    by (auto split: if_splits)
  ultimately show ?thesis
    using assms by (auto simp: finalize_def finalizeDC_def)
qed

theorem finalize_clears_error_witness:
  "gotoPosition (stepper3\<lparr>currentPos := reversedPolarityPos stepper3\<rparr>) 0
       (act (SleepPin (\<not> enableIsHigh stepper3)) (takeSteps stepper3 (- 1) 1 homedWorld))
     = Inr (True, stepper3\<lparr>currentPos := 1, errors := 3\<rparr>,
            \<lparr>sensor = [512, 512], clock = [],
             motor = [Steps (- 1), SleepPin False, SleepPin True, Steps (- 3), SleepPin False],
             garbage = 0\<rparr>)
   \<and> gotoPositionDC (dc3\<lparr>currentPos := reversedPolarityPos dc3\<rparr>) 0 homedWorld
     = Inr (False, dc3\<lparr>currentPos := 1, errors := 3\<rparr>,
            \<lparr>sensor = [512, 512], clock = [],
             motor = [MotorPins False True, MotorPins False False], garbage = 0\<rparr>)
   \<and> map_sum id (\<lambda>(r, v', w'). (r, currentPos v', errors v')) (finalize stepper3 homedWorld)
     = Inr (True, 1, 0)
   \<and> map_sum id (\<lambda>(r, v', w'). (r, currentPos v', errors v')) (finalizeDC dc3 homedWorld)
     = Inr (True, 1, 0)"
proof -
  have s: "gotoPosition (stepper3\<lparr>currentPos := reversedPolarityPos stepper3\<rparr>) 0
       (act (SleepPin (\<not> enableIsHigh stepper3)) (takeSteps stepper3 (- 1) 1 homedWorld))
     = Inr (True, stepper3\<lparr>currentPos := 1, errors := 3\<rparr>,
            \<lparr>sensor = [512, 512], clock = [],
             motor = [Steps (- 1), SleepPin False, SleepPin True, Steps (- 3), SleepPin False],
             garbage = 0\<rparr>)"
    by (simp add: gotoPosition_def stepper3_def homedWorld_def millis_def
        gotoPlan_def forwardDistance_def mod_c_def c_rem_def coarseLoop.simps isTimedOut_def
        takeSteps_def act_def)
  have d: "gotoPositionDC (dc3\<lparr>currentPos := reversedPolarityPos dc3\<rparr>) 0 homedWorld
     = Inr (False, dc3\<lparr>currentPos := 1, errors := 3\<rparr>,
            \<lparr>sensor = [512, 512], clock = [],
             motor = [MotorPins False True, MotorPins False False], garbage = 0\<rparr>)"
    by (simp add: gotoPositionDC_def dc3_def homedWorld_def millis_def
        gotoPlanDC_def forwardDistance_def mod_c_def c_rem_def gotoLoopDC.simps isTimedOut_def
        startTurning_def stopTurning_def act_def)
  show ?thesis
    using finalize_clears_error [OF s d] s d by (simp add: stepper3_def dc3_def)
qed

text \<open>
  A whole run of \<open>initializeValve\<close> on the three-port stepper valve: calibration (idle
  signal 512, threshold 54), census, localization and homing succeed, the inner
  \<open>gotoPosition(0)\<close> times out, and the call returns \<open>true\<close> with error 0 at position 1.
\<close>

lemma initializeValve_run:
  "map_sum id (\<lambda>(r, v', w'). (r, currentPos v', errors v', hallSensorIdleSignal v', hallSensorThreshold v'))
     (initializeValve stepper3 rotationWorld)
   = Inr (True, 1, 0, 512, 54)"
  by code_simp

subsection \<open>The scratch buffer of local minima in the DC variant\<close>

lemma writeMinimaDC_eq:
  "j \<le> 64 \<Longrightarrow> length buf = 64 \<Longrightarrow>
   writeMinimaDC s j buf =
     (if j + length (localMinima s) \<le> 64
      then Inr (j + length (localMinima s),
                take j buf @ localMinima s @ drop (j + length (localMinima s)) buf)
      else Inl Undefined)"
proof (induction s j buf rule: writeMinimaDC.induct)
  case (1 a b c rest j buf)
  show ?case
  proof (cases "a \<ge> b \<and> c \<ge> b")
    case False
    then have "writeMinimaDC (a # b # c # rest) j buf = writeMinimaDC (b # c # rest) j buf"
      and "localMinima (a # b # c # rest) = localMinima (b # c # rest)"
      by auto
    with False 1 show ?thesis by simp
  next
    case True
    show ?thesis
    proof (cases "j < 64")
      case False
      with True 1 show ?thesis by simp
    next
      case j: True
      have "take (Suc j) (buf[j := b]) = take j buf @ [b]"
        using j "1.prems" by (simp add: take_Suc_conv_app_nth)
      moreover have "drop (Suc (j + k)) (buf[j := b]) = drop (Suc (j + k)) buf" for k
        by (simp add: drop_update_cancel)
      ultimately show ?thesis
        using True j 1 by simp
    qed
  qed
qed simp_all

lemma localMinima_flat: "localMinima (replicate (Suc (Suc n)) x) = replicate n x"
  by (induction n) simp_all

lemma sampleLoopDC_take:
  "i \<le> 512 \<Longrightarrow> nat (512 - i) \<le> length (sensor w) \<Longrightarrow>
   \<exists>mn' mx'. sampleLoopDC v i mn mx w =
      Inr (take (nat (512 - i)) (sensor w), mn', mx', w\<lparr>sensor := drop (nat (512 - i)) (sensor w)\<rparr>)"
proof (induction "nat (512 - i)" arbitrary: i mn mx w)
  case 0
  then have "i = 512" by simp
  then show ?case by (simp add: sampleLoopDC.simps)
next
  case (Suc k)
  then have i: "i < 512" and k: "k = nat (512 - (i + 1))" by linarith+
  from Suc.prems Suc.hyps(2) obtain h hs where s: "sensor w = h # hs"
    by (cases "sensor w") auto
  have len: "nat (512 - (i + 1)) \<le> length (sensor (w\<lparr>sensor := hs\<rparr>))"
    using Suc.prems Suc.hyps(2) s by simp
  have n: "nat (512 - i) = Suc (nat (512 - (i + 1)))"
    using i by linarith
  let ?mx1 = "if h > mx \<and> \<bar>h - hallSensorIdleSignal v\<bar> < 200 then h else mx"
  let ?mn1 = "if \<not> (h > mx \<and> \<bar>h - hallSensorIdleSignal v\<bar> < 200)
                 \<and> h < mn \<and> \<bar>h - hallSensorIdleSignal v\<bar> < 200 then h else mn"
  from Suc.hyps(1) [OF k _ len, of ?mn1 ?mx1] i
  obtain mn' mx' where
    "sampleLoopDC v (i + 1) ?mn1 ?mx1 (w\<lparr>sensor := hs\<rparr>) =
      Inr (take (nat (512 - (i + 1))) hs, mn', mx', w\<lparr>sensor := drop (nat (512 - (i + 1))) hs\<rparr>)"
    by auto
  then have "sampleLoopDC v i mn mx w =
      Inr (h # take (nat (512 - (i + 1))) hs, mn', mx', w\<lparr>sensor := drop (nat (512 - (i + 1))) hs\<rparr>)"
    using i s by (subst sampleLoopDC.simps) (simp add: read_Cons Let_def)
  then show ?case
    using s n by simp
qed

lemma calibrateDC_flat:
  assumes "sensor w = replicate 513 x"
  shows "calibrateDC v w = Inl Undefined"
proof -
  have "replicate 513 x = replicate (Suc 512) x"
    by simp
  then have "sensor w = x # replicate 512 x"
    using assms by (simp only: replicate_Suc)
  then have r: "readHallSensorSignal w = Inr (x, w\<lparr>sensor := replicate 512 x\<rparr>)"
    by (rule read_Cons)
  let ?w1 = "startTurning v True (w\<lparr>sensor := replicate 512 x\<rparr>)"
  have s1: "sensor ?w1 = replicate 512 x"
    by (simp add: startTurning_def)
  obtain mn mx where "sampleLoopDC (v\<lparr>hallSensorIdleSignal := 512\<rparr>) 0 1023 0 ?w1 =
      Inr (replicate 512 x, mn, mx, ?w1\<lparr>sensor := []\<rparr>)"
    using sampleLoopDC_take [of 0 ?w1 "v\<lparr>hallSensorIdleSignal := 512\<rparr>" 1023 0] s1 by auto
  moreover have "writeMinimaDC (replicate 512 x) 0 (replicate 64 g) = Inl Undefined" for g
    using localMinima_flat [of 510 x] by (simp add: writeMinimaDC_eq)
  ultimately show ?thesis
    using r by (simp add: calibrateDC_def)
qed

text \<open>
  C10. With a sensor that reads 512 all the time, the 512 readings of the DC
  calibration have 510 local minima; the 65th is written to \<open>minValuesTmp[64]\<close>, outside the
  array of 64 elements.
\<close>

theorem minima_buffer_overflow:
  "length (localMinima (replicate 512 512)) = 510
   \<and> writeMinimaDC (replicate 512 512) 0 (replicate 64 (garbage flatWorld)) = Inl Undefined
   \<and> initializeValveDC dc10 flatWorld = Inl Undefined"
proof -
  have 1: "length (localMinima (replicate 512 512)) = 510"
    using localMinima_flat [of 510 512] by simp
  then have 2: "writeMinimaDC (replicate 512 512) 0 (replicate 64 (garbage flatWorld)) = Inl Undefined"
    by (simp add: writeMinimaDC_eq)
  have "replicate 516 (512::int) = replicate (Suc (Suc (Suc 513))) 512"
    by simp
  then have "sensor flatWorld = 512 # 512 # 512 # replicate 513 512"
    by (simp only: flatWorld_def replicate_Suc world.simps)
  then have "initializeValveDC dc10 flatWorld =
      afterSensorCheckDC (dc10\<lparr>hallSensorThreshold := 0, hallSensorIdleSignal := 512 + 512 + 512\<rparr>)
        (flatWorld\<lparr>sensor := replicate 513 512\<rparr>)"
    by (simp add: initializeValveDC_def accumulateReads_eq)
  also have "\<dots> = Inl Undefined"
    by (simp add: afterSensorCheckDC_def calibrateDC_flat)
  finally show ?thesis using 1 2 by simp
qed

subsection \<open>The detection threshold\<close>



lemma zeroFill_eq:
  "j \<le> 63 \<Longrightarrow> length buf = 64 \<Longrightarrow>
   zeroFill j buf = take j buf @ replicate (63 - j) 0 @ [buf ! 63]"
proof (induction "63 - j" arbitrary: j buf)
  case 0
  then have "j = 63" by simp
  with 0 show ?case
    by (simp add: zeroFill_def take_Suc_conv_app_nth [symmetric])
next
  case (Suc k)
  then have j: "j < 63" by simp
  have "zeroFill j buf = zeroFill (Suc j) (buf[j := 0])"
    using j by (simp add: zeroFill_def upt_conv_Cons)
  also have "\<dots> = take (Suc j) (buf[j := 0]) @ replicate (63 - Suc j) 0 @ [buf[j := 0] ! 63]"
    using Suc j by (intro Suc.hyps(1)) simp_all
  also have "take (Suc j) (buf[j := 0]) = take j buf @ [0]"
    using j Suc.prems by (simp add: take_Suc_conv_app_nth)
  also have "buf[j := 0] ! 63 = buf ! 63"
    using j by simp
  finally have "zeroFill j buf = take j buf @ (0 # replicate (62 - j) 0) @ [buf ! 63]"
    by simp
  moreover have "63 - j = Suc (62 - j)"
    using j by simp
  then have "replicate (63 - j) (0::int) = 0 # replicate (62 - j) 0"
    by (simp only: replicate_Suc)
  ultimately show ?case
    by simp
qed

















text \<open>
  The loop of line 207 that clears the array behind the maxima stops one element short:
  the last element keeps whatever the array held before.
\<close>

lemma zeroFill_last: "j \<le> 63 \<Longrightarrow> length buf = 64 \<Longrightarrow> zeroFill j buf ! 63 = buf ! 63"
  by (simp add: zeroFill_eq nth_append)

subsection \<open>The polarity census\<close>

lemma uint_byte_of_nat: "P < 256 \<Longrightarrow> uint (of_nat P :: byte) = int P"
  by (simp add: uint_nat unat_of_nat)

lemma peakCount_Nil [simp]: "peakCount v ia [] = 0"
  by (simp add: peakCount_def)

lemma peakCount_Cons:
  "peakCount v ia (h # hs) =
     (if \<not> ia \<and> aboveThreshold v h then 1 else 0) + peakCount v (aboveThreshold v h) hs"
  by (auto simp: peakCount_def split: prod.splits)

lemma polarityCounts_Cons_fst:
  "fst (polarityCounts v ia (h # hs)) =
     (if \<not> ia \<and> aboveThreshold v h \<and> h > hallSensorIdleSignal v then 1 else 0)
     + fst (polarityCounts v (aboveThreshold v h) hs)"
  by (auto split: prod.splits)

lemma polarityCounts_Cons_snd:
  "snd (polarityCounts v ia (h # hs)) =
     (if \<not> ia \<and> aboveThreshold v h \<and> \<not> h > hallSensorIdleSignal v then 1 else 0)
     + snd (polarityCounts v (aboveThreshold v h) hs)"
  by (auto split: prod.splits)

lemma uint_byte_Suc_le: "uint (c + 1 :: byte) \<le> uint c + 1"
proof -
  have "uint (c + 1) = (uint c + 1) mod 2 ^ 8"
    by (simp add: uint_word_ariths)
  also have "\<dots> \<le> uint c + 1"
    using uint_nonnegative [of c] by (intro zmod_le_nonneg_dividend) simp
  finally show ?thesis .
qed

lemma censusLoopDC_rounds:
  assumes "hs \<noteq> []" and "sensor w = hs @ rest" and "clock w = ts @ trest"
      and "length ts = length hs"
      and "\<forall>t\<in>set (butlast ts). \<not> isTimedOut t st 3000"
      and "uint sc + int (peakCount v ia (butlast hs)) < 2 * uint (ports v)"
  shows "censusLoopDC v st sc pos neg ia h0 w =
     (if isTimedOut (last ts) st 3000
      then Inr (Return (False, v\<lparr>errors := 3\<rparr>, stopTurning (w\<lparr>sensor := rest, clock := trest\<rparr>)))
      else censusLoopDC v st (sc + of_nat (peakCount v ia hs))
             (pos + of_nat (fst (polarityCounts v ia hs)))
             (neg + of_nat (snd (polarityCounts v ia hs)))
             (aboveThreshold v (last hs)) (last hs) (w\<lparr>sensor := rest, clock := trest\<rparr>))"
  using assms
proof (induction hs arbitrary: ts sc pos neg ia h0 w rule: list_nonempty_induct)
  case (single h)
  then obtain t where ts: "ts = [t]"
    by (cases ts) auto
  let ?w1 = "w\<lparr>sensor := rest\<rparr>"
  have r: "readHallSensorSignal w = Inr (h, ?w1)"
    using single.prems(1) by (intro read_Cons) simp
  have m: "millis ?w1 = Inr (t, ?w1\<lparr>clock := trest\<rparr>)"
    using single.prems(2) ts by (intro millis_Cons) simp
  have c: "uint sc < 2 * uint (ports v)"
    using single.prems(5) by simp
  show ?case
    using c r m ts
    by (subst censusLoopDC.simps)
       (simp add: Let_def peakCount_Cons polarityCounts_Cons_fst polarityCounts_Cons_snd)
next
  case (cons h hs)
  from cons.prems(3) obtain t ts' where ts: "ts = t # ts'" and l: "length ts' = length hs"
    by (cases ts) auto
  with cons.hyps have ne: "ts' \<noteq> []" by auto
  let ?w1 = "w\<lparr>sensor := hs @ rest\<rparr>"
  let ?w2 = "?w1\<lparr>clock := ts' @ trest\<rparr>"
  have r: "readHallSensorSignal w = Inr (h, ?w1)"
    using cons.prems(1) by (intro read_Cons) simp
  have m: "millis ?w1 = Inr (t, ?w2)"
    using cons.prems(2) ts by (intro millis_Cons) simp
  have nt: "\<not> isTimedOut t st 3000" and nts: "\<forall>t\<in>set (butlast ts'). \<not> isTimedOut t st 3000"
    using cons.prems(4) ts ne by simp_all
  let ?rising = "\<not> ia \<and> aboveThreshold v h"
  let ?sc1 = "if ?rising then sc + 1 else sc"
  let ?pos1 = "if ?rising \<and> h > hallSensorIdleSignal v then pos + 1 else pos"
  let ?neg1 = "if ?rising \<and> \<not> h > hallSensorIdleSignal v then neg + 1 else neg"
  have pc: "int (peakCount v ia (butlast (h # hs)))
              = (if ?rising then 1 else 0) + int (peakCount v (aboveThreshold v h) (butlast hs))"
    using cons.hyps by (simp add: peakCount_Cons)
  have c: "uint sc < 2 * uint (ports v)"
    using cons.prems(5) pc by (simp split: if_splits)
  have c1: "uint ?sc1 + int (peakCount v (aboveThreshold v h) (butlast hs)) < 2 * uint (ports v)"
  proof (cases ?rising)
    case True
    with cons.prems(5) pc
    have "uint sc + 1 + int (peakCount v (aboveThreshold v h) (butlast hs)) < 2 * uint (ports v)"
      by simp
    moreover have "?sc1 = sc + 1"
      using True by simp
    ultimately show ?thesis
      using uint_byte_Suc_le [of sc] by (simp only:)
  next
    case False
    then have "?sc1 = sc"
      by simp
    with False cons.prems(5) pc show ?thesis
      by (simp only:) simp
  qed
  have step: "censusLoopDC v st sc pos neg ia h0 w =
                censusLoopDC v st ?sc1 ?pos1 ?neg1 (aboveThreshold v h) h ?w2"
    using c r m nt by (subst censusLoopDC.simps) (auto simp: Let_def)
  have s2: "sensor ?w2 = hs @ rest" "clock ?w2 = ts' @ trest"
    by simp_all
  have last: "last ts = last ts'" "last (h # hs) = last hs"
    using ts ne cons.hyps by simp_all
  show ?case
    unfolding step cons.IH [OF s2 l nts c1] last
    by (simp add: peakCount_Cons polarityCounts_Cons_fst polarityCounts_Cons_snd add.assoc
             del: polarityCounts.simps)
qed

lemma censusDC_run:
  assumes "sensor w = h0 # hs @ rest" and "clock w = st # ts @ trest"
      and "length ts = length hs" and "hs \<noteq> []"
      and "\<forall>t\<in>set (butlast ts). \<not> isTimedOut t st 3000"
      and "int (peakCount v (aboveThreshold v h0) (butlast hs)) < 2 * uint (ports v)"
      and "polarityCounts v (aboveThreshold v h0) hs = (P, M)"
  shows "isTimedOut (last ts) st 3000 \<Longrightarrow>
           censusDC v w = Inr (Return (False, v\<lparr>errors := 3\<rparr>,
             stopTurning (startTurning v True (w\<lparr>sensor := rest, clock := trest\<rparr>))))"
    and "\<not> isTimedOut (last ts) st 3000 \<Longrightarrow> int (P + M) = 2 * uint (ports v)
           \<Longrightarrow> uint (ports v) \<le> 127 \<Longrightarrow>
           censusDC v w =
             Inr (if \<bar>int P - int M\<bar> \<noteq> 2 * (uint (ports v) - 2)
                  then Return (False, v\<lparr>errors := 2\<rparr>,
                         stopTurning (startTurning v True (w\<lparr>sensor := rest, clock := trest\<rparr>)))
                  else Next (M < P, aboveThreshold v (last hs), last hs,
                         stopTurning (startTurning v True (w\<lparr>sensor := rest, clock := trest\<rparr>))))"
proof -
  let ?w1 = "w\<lparr>sensor := hs @ rest\<rparr>"
  let ?w2 = "?w1\<lparr>clock := ts @ trest\<rparr>"
  let ?w3 = "startTurning v True ?w2"
  have r: "readHallSensorSignal w = Inr (h0, ?w1)"
    using assms(1) by (intro read_Cons) simp
  have m: "millis ?w1 = Inr (st, ?w2)"
    using assms(2) by (intro millis_Cons) simp
  have s3: "sensor ?w3 = hs @ rest" "clock ?w3 = ts @ trest"
    by simp_all
  have c: "uint (0 :: byte) + int (peakCount v (aboveThreshold v h0) (butlast hs)) < 2 * uint (ports v)"
    using assms(6) by simp
  note rounds = censusLoopDC_rounds [OF assms(4) s3 assms(3,5) c, of 0 0 h0]
  have w: "?w3\<lparr>sensor := rest, clock := trest\<rparr>
             = startTurning v True (w\<lparr>sensor := rest, clock := trest\<rparr>)"
    by (simp add: startTurning_def act_def)
  show "censusDC v w = Inr (Return (False, v\<lparr>errors := 3\<rparr>,
             stopTurning (startTurning v True (w\<lparr>sensor := rest, clock := trest\<rparr>))))"
    if "isTimedOut (last ts) st 3000"
    using that r m rounds w by (simp add: censusDC_def)
  show "censusDC v w =
             Inr (if \<bar>int P - int M\<bar> \<noteq> 2 * (uint (ports v) - 2)
                  then Return (False, v\<lparr>errors := 2\<rparr>,
                         stopTurning (startTurning v True (w\<lparr>sensor := rest, clock := trest\<rparr>)))
                  else Next (M < P, aboveThreshold v (last hs), last hs,
                         stopTurning (startTurning v True (w\<lparr>sensor := rest, clock := trest\<rparr>))))"
    if nt: "\<not> isTimedOut (last ts) st 3000" and full: "int (P + M) = 2 * uint (ports v)"
      and p: "uint (ports v) \<le> 127"
  proof -
    have b: "P + M < 256" "P < 256" "M < 256"
      using full p by linarith+
    have pc: "peakCount v (aboveThreshold v h0) hs = P + M"
      using assms(7) by (simp add: peakCount_def)
    have "uint (of_nat (P + M) :: byte) = 2 * uint (ports v)"
      using b(1) full by (simp only: uint_byte_of_nat)
    then have exit: "\<not> uint (0 + of_nat (P + M) :: byte) < 2 * uint (ports v)"
      by simp
    have "censusLoopDC v st 0 0 0 (aboveThreshold v h0) h0 ?w3 =
            Inr (Next (of_nat P, of_nat M, aboveThreshold v (last hs), last hs,
                       ?w3\<lparr>sensor := rest, clock := trest\<rparr>))"
      unfolding rounds using nt exit assms(7) pc
      by (subst censusLoopDC.simps) simp
    then show ?thesis
      using r m w b(2,3) by (simp add: censusDC_def uint_byte_of_nat)
  qed
qed

lemma censusLoop_rounds:
  assumes "sensor w = hs @ rest" and "int (length hs) = n - i"
  shows "censusLoop v mul n i pos neg ia h0 w =
           Inr (pos + of_nat (fst (polarityCounts v ia hs)),
                neg + of_nat (snd (polarityCounts v ia hs)),
                (if hs = [] then ia else aboveThreshold v (last hs)), last (h0 # hs),
                w\<lparr>sensor := rest,
                  motor := motor w @ replicate (length hs)
                             (Steps ((if clockwiseNumbering v then - 1 else 1) * uint mul))\<rparr>)"
  using assms
proof (induction hs arbitrary: i pos neg ia h0 w)
  case Nil
  then have "w\<lparr>sensor := rest, motor := motor w\<rparr> = w"
    by auto
  with Nil show ?case
    by (subst censusLoop.simps) simp
next
  case (Cons h hs)
  then have i: "i < n" by simp
  let ?S = "Steps ((if clockwiseNumbering v then - 1 else 1) * uint mul)"
  let ?w1 = "(takeSteps v 1 (uint mul) w)\<lparr>sensor := hs @ rest\<rparr>"
  have r: "readHallSensorSignal (takeSteps v 1 (uint mul) w) = Inr (h, ?w1)"
    using Cons.prems(1) by (intro read_Cons) simp
  let ?rising = "\<not> ia \<and> aboveThreshold v h"
  let ?pos1 = "if ?rising \<and> h > hallSensorIdleSignal v then pos + 1 else pos"
  let ?neg1 = "if ?rising \<and> \<not> h > hallSensorIdleSignal v then neg + 1 else neg"
  have step: "censusLoop v mul n i pos neg ia h0 w =
                censusLoop v mul n (i + 1) ?pos1 ?neg1 (aboveThreshold v h) h ?w1"
    using i r by (subst censusLoop.simps) (auto simp: Let_def)
  have s1: "sensor ?w1 = hs @ rest" "int (length hs) = n - (i + 1)"
    using Cons.prems(2) by simp_all
  have w: "?w1\<lparr>sensor := rest, motor := motor ?w1 @ replicate (length hs) ?S\<rparr>
           = w\<lparr>sensor := rest, motor := motor w @ replicate (length (h # hs)) ?S\<rparr>"
    by (simp add: takeSteps_def act_def)
  have last: "last (h # hs) = last (h0 # h # hs)"
    by simp
  show ?case
    unfolding step Cons.IH [OF s1] w last
    by (simp add: polarityCounts_Cons_fst polarityCounts_Cons_snd add.assoc
             del: polarityCounts.simps)
qed

lemma census_run:
  assumes "sensor w = h0 # hs @ rest" and "int (length hs) = n"
      and "polarityCounts v (aboveThreshold v h0) hs = (P, M)" and "P < 256" and "M < 256"
  shows "census v mul n w =
           Inr (if \<bar>int P - int M\<bar> \<noteq> uint (ports v) - 2
                then Return (False, v\<lparr>errors := 2\<rparr>,
                       act (SleepPin (\<not> enableIsHigh v))
                         (w\<lparr>sensor := rest,
                            motor := motor w @ replicate (length hs)
                              (Steps ((if clockwiseNumbering v then - 1 else 1) * uint mul))\<rparr>))
                else Next (M < P, aboveThreshold v (last (h0 # hs)), last (h0 # hs),
                       w\<lparr>sensor := rest,
                         motor := motor w @ replicate (length hs)
                           (Steps ((if clockwiseNumbering v then - 1 else 1) * uint mul))\<rparr>))"
proof -
  let ?w1 = "w\<lparr>sensor := hs @ rest\<rparr>"
  have r: "readHallSensorSignal w = Inr (h0, ?w1)"
    using assms(1) by (rule read_Cons)
  have s1: "sensor ?w1 = hs @ rest" "int (length hs) = n - 0"
    using assms(2) by simp_all
  have ia: "(if hs = [] then aboveThreshold v h0 else aboveThreshold v (last hs))
              = aboveThreshold v (last (h0 # hs))"
    by simp
  have w: "?w1\<lparr>sensor := rest, motor := motor ?w1 @ replicate (length hs) S\<rparr>
           = w\<lparr>sensor := rest, motor := motor w @ replicate (length hs) S\<rparr>" for S
    by simp
  have l: "censusLoop v mul n 0 0 0 (aboveThreshold v h0) h0 ?w1 =
             Inr (of_nat P, of_nat M, aboveThreshold v (last (h0 # hs)), last (h0 # hs),
                  w\<lparr>sensor := rest,
                    motor := motor w @ replicate (length hs)
                               (Steps ((if clockwiseNumbering v then - 1 else 1) * uint mul))\<rparr>)"
    unfolding censusLoop_rounds [OF s1] ia w using assms(3) by simp
  show ?thesis
    using assms(4,5) by (simp add: census_def r l uint_byte_of_nat)
qed

lemma calibrateDC_uniform:
  "calibrateDC (dc10\<lparr>hallSensorThreshold := 0, hallSensorIdleSignal := 1536\<rparr>)
       (uniformWorld\<lparr>sensor := drop 3 (sensor uniformWorld)\<rparr>)
     = Inr (dc10\<lparr>hallSensorThreshold := 0, hallSensorIdleSignal := 512\<rparr>,
            \<lparr>sensor = [632, 662, 632, 602], clock = [0, 1000, 2000, 3001],
             motor = [MotorPins False True, MotorPins False False], garbage = 0\<rparr>)"
  by code_simp

text \<open>
  C4, as stated, fails. A DC valve whose magnets all have the same polarity (no reversed
  magnet) is calibrated on readings between 512 and 662: every local minimum is 512, so
  the idle signal is 512, the running extremes are 512 and 662, and the threshold is
  \<open>min(0, 150) / 2.5 = 0\<close>. With this threshold every reading is at or beyond the
  threshold, so the census never sees a new peak, however fast the valve turns (the three
  rounds of the census loop below stand for the thousands of a real run), and after
  3000 ms \<open>initializeValve\<close> fails with error 3 (Timeout), not with error 2.
\<close>

theorem census_timeout_counterexample:
  "initializeValveDC dc10 uniformWorld =
     Inr (False, dc10\<lparr>hallSensorThreshold := 0, hallSensorIdleSignal := 512, errors := 3\<rparr>,
          \<lparr>sensor = [], clock = [],
           motor = [MotorPins False True, MotorPins False False,
                    MotorPins False True, MotorPins False False], garbage = 0\<rparr>)"
proof -
  have "sensor uniformWorld = 512 # 512 # 512 # drop 3 (sensor uniformWorld)"
    by (simp add: uniformWorld_def)
  then have "initializeValveDC dc10 uniformWorld =
      afterSensorCheckDC (dc10\<lparr>hallSensorThreshold := 0, hallSensorIdleSignal := 512 + 512 + 512\<rparr>)
        (uniformWorld\<lparr>sensor := drop 3 (sensor uniformWorld)\<rparr>)"
    by (simp add: initializeValveDC_def accumulateReads_eq)
  also have "\<dots> =
      (case censusDC (dc10\<lparr>hallSensorThreshold := 0, hallSensorIdleSignal := 512\<rparr>)
              \<lparr>sensor = [632, 662, 632, 602], clock = [0, 1000, 2000, 3001],
               motor = [MotorPins False True, MotorPins False False], garbage = 0\<rparr> of
         Inl e \<Rightarrow> Inl e
       | Inr (Return r) \<Rightarrow> Inr r
       | Inr (Next (majorityHasPositivePolarity, isAboveThreshold, hallSignal, w2)) \<Rightarrow>
           locateDC (dc10\<lparr>hallSensorThreshold := 0, hallSensorIdleSignal := 512\<rparr>)
             majorityHasPositivePolarity isAboveThreshold hallSignal w2)"
    by (simp add: afterSensorCheckDC_def calibrateDC_uniform)
  also have "censusDC (dc10\<lparr>hallSensorThreshold := 0, hallSensorIdleSignal := 512\<rparr>)
              \<lparr>sensor = [632, 662, 632, 602], clock = [0, 1000, 2000, 3001],
               motor = [MotorPins False True, MotorPins False False], garbage = 0\<rparr>
      = Inr (Return (False, dc10\<lparr>hallSensorThreshold := 0, hallSensorIdleSignal := 512, errors := 3\<rparr>,
          \<lparr>sensor = [], clock = [],
           motor = [MotorPins False True, MotorPins False False,
                    MotorPins False True, MotorPins False False], garbage = 0\<rparr>))"
    by (simp add: censusDC_def censusLoopDC.simps
          readHallSensorSignal_def millis_def isTimedOut_def aboveThreshold_def
          startTurning_def stopTurning_def act_def dc10_def)
  finally show ?thesis
    by simp
qed

text \<open>
  C4, amended. The census must observe \<open>N - 2\<close> more peaks of the majority polarity than
  of the minority polarity per rotation. The stepper variant counts the peaks of one
  rotation (fewer than 256 of either polarity) and, unless the two counts differ by exactly
  \<open>N - 2\<close>, puts the driver to sleep, sets error 2 and returns \<open>false\<close>. The DC variant
  counts until \<open>2 N\<close> peaks were seen (two rotations): when its 3000 ms have passed at the
  check after a reading it stops the motor, sets error 3 and returns \<open>false\<close>; when \<open>2 N\<close>
  peaks were counted before that (at most 127 ports), it stops the motor and, unless the
  two counts differ by exactly \<open>2 (N - 2)\<close>, sets error 2 and returns \<open>false\<close>. No
  mismatch lets the census pass.
\<close>

theorem polarity_census:
  assumes "sensor w = h0 # hs @ rest" and "int (length hs) = n"
      and "polarityCounts v (aboveThreshold v h0) hs = (P, M)" and "P < 256" and "M < 256"
      and "sensor wd = hd0 # hsd @ restd" and "clock wd = st # ts @ trest"
      and "length ts = length hsd" and "hsd \<noteq> []"
      and "\<forall>t\<in>set (butlast ts). \<not> isTimedOut t st 3000"
      and "int (peakCount vd (aboveThreshold vd hd0) (butlast hsd)) < 2 * uint (ports vd)"
      and "polarityCounts vd (aboveThreshold vd hd0) hsd = (Pd, Md)"
  shows "census v mul n w =
           Inr (if \<bar>int P - int M\<bar> \<noteq> uint (ports v) - 2
                then Return (False, v\<lparr>errors := 2\<rparr>,
                       act (SleepPin (\<not> enableIsHigh v))
                         (w\<lparr>sensor := rest,
                            motor := motor w @ replicate (length hs)
                              (Steps ((if clockwiseNumbering v then - 1 else 1) * uint mul))\<rparr>))
                else Next (M < P, aboveThreshold v (last (h0 # hs)), last (h0 # hs),
                       w\<lparr>sensor := rest,
                         motor := motor w @ replicate (length hs)
                           (Steps ((if clockwiseNumbering v then - 1 else 1) * uint mul))\<rparr>))
       \<and> (isTimedOut (last ts) st 3000 \<longrightarrow>
            censusDC vd wd = Inr (Return (False, vd\<lparr>errors := 3\<rparr>,
              stopTurning (startTurning vd True (wd\<lparr>sensor := restd, clock := trest\<rparr>)))))
       \<and> (\<not> isTimedOut (last ts) st 3000 \<and> int (Pd + Md) = 2 * uint (ports vd)
            \<and> uint (ports vd) \<le> 127 \<longrightarrow>
            censusDC vd wd =
              Inr (if \<bar>int Pd - int Md\<bar> \<noteq> 2 * (uint (ports vd) - 2)
                   then Return (False, vd\<lparr>errors := 2\<rparr>,
                          stopTurning (startTurning vd True (wd\<lparr>sensor := restd, clock := trest\<rparr>)))
                   else Next (Md < Pd, aboveThreshold vd (last hsd), last hsd,
                          stopTurning (startTurning vd True (wd\<lparr>sensor := restd, clock := trest\<rparr>)))))"
  using census_run [OF assms(1-5), of mul] censusDC_run [OF assms(6-12)]
  by blast

theorem polarity_census_witness:
  "(\<exists>w'. census stepper6 3 67
            (rotation [magnetPos, magnetPos, magnetPos, magnetPos, magnetPos, magnetPos])
          = Inr (Return (False, stepper6\<lparr>errors := 2\<rparr>, w')))
   \<and> (\<exists>w'. census stepper6 3 67
            (rotation [magnetPos, magnetNeg, magnetPos, magnetNeg, magnetPos, magnetPos])
          = Inr (Return (False, stepper6\<lparr>errors := 2\<rparr>, w')))
   \<and> (\<exists>ia h w'. census stepper6 3 67
            (rotation [magnetPos, magnetPos, magnetPos, magnetNeg, magnetPos, magnetPos])
          = Inr (Next (True, ia, h, w')))
   \<and> censusDC dc6 (censusWorldDC [662, 662, 662, 662, 662, 662, 662, 662, 662, 662, 662, 662]
                    (map (\<lambda>i. 10 * of_nat i) [0..<25]))
       = Inr (Return (False, dc6\<lparr>errors := 2\<rparr>,
           \<lparr>sensor = [512], clock = [240],
            motor = [MotorPins False True, MotorPins False False], garbage = 0\<rparr>))
   \<and> censusDC dc6 (censusWorldDC [662, 362, 662, 362, 662, 662, 662, 362, 662, 362, 662, 662]
                    (map (\<lambda>i. 10 * of_nat i) [0..<25]))
       = Inr (Return (False, dc6\<lparr>errors := 2\<rparr>,
           \<lparr>sensor = [512], clock = [240],
            motor = [MotorPins False True, MotorPins False False], garbage = 0\<rparr>))
   \<and> censusDC dc6 (censusWorldDC [662, 662, 662, 362, 662, 662, 662, 662, 662, 362, 662, 662]
                    (map (\<lambda>i. 10 * of_nat i) [0..<25]))
       = Inr (Next (True, True, 662,
           \<lparr>sensor = [512], clock = [240],
            motor = [MotorPins False True, MotorPins False False], garbage = 0\<rparr>))
   \<and> censusDC dc6 (censusWorldDC [662, 662, 662] [0, 1000, 2000, 3001, 3011])
       = Inr (Return (False, dc6\<lparr>errors := 3\<rparr>,
           \<lparr>sensor = [512, 662, 512], clock = [3011],
            motor = [MotorPins False True, MotorPins False False], garbage = 0\<rparr>))"
proof -
  let ?zero = "[magnetPos, magnetPos, magnetPos, magnetPos, magnetPos, magnetPos]"
  let ?two = "[magnetPos, magnetNeg, magnetPos, magnetNeg, magnetPos, magnetPos]"
  let ?one = "[magnetPos, magnetPos, magnetPos, magnetNeg, magnetPos, magnetPos]"
  have s: "sensor (rotation ms) = 512 # (concat ms @ [512]) @ []" for ms
    by (simp add: rotation_def)
  have l: "int (length (concat ?zero @ [512])) = 67" "int (length (concat ?two @ [512])) = 67"
    "int (length (concat ?one @ [512])) = 67"
    by (simp_all add: magnetPos_def magnetNeg_def)
  have c0: "polarityCounts stepper6 (aboveThreshold stepper6 512) (concat ?zero @ [512]) = (6, 0)"
    by code_simp
  have c2: "polarityCounts stepper6 (aboveThreshold stepper6 512) (concat ?two @ [512]) = (4, 2)"
    by code_simp
  have c1: "polarityCounts stepper6 (aboveThreshold stepper6 512) (concat ?one @ [512]) = (5, 1)"
    by code_simp
  have b: "(6::nat) < 256" "(0::nat) < 256" "(4::nat) < 256" "(2::nat) < 256" "(5::nat) < 256"
    "(1::nat) < 256"
    by simp_all
  let ?T = "map (\<lambda>i. 10 * of_nat i) [0..<25] :: ulong list"
  let ?ts = "map (\<lambda>i. 10 * of_nat i) [1..<24] :: ulong list"
  let ?d0 = "[662, 662, 662, 662, 662, 662, 662, 662, 662, 662, 662, 662] :: int list"
  let ?d2 = "[662, 362, 662, 362, 662, 662, 662, 362, 662, 362, 662, 662] :: int list"
  let ?d1 = "[662, 662, 662, 362, 662, 662, 662, 662, 662, 362, 662, 662] :: int list"
  have sd: "sensor (censusWorldDC ?d0 ?T) = 512 # butlast (peakTrain ?d0) @ [512]"
    "sensor (censusWorldDC ?d2 ?T) = 512 # butlast (peakTrain ?d2) @ [512]"
    "sensor (censusWorldDC ?d1 ?T) = 512 # butlast (peakTrain ?d1) @ [512]"
    by (simp_all add: censusWorldDC_def peakTrain_def)
  have cd: "clock (censusWorldDC ps ?T) = 0 # ?ts @ [240]" for ps
    by (simp add: censusWorldDC_def) code_simp
  have ld: "length ?ts = length (butlast (peakTrain ?d0))"
    "length ?ts = length (butlast (peakTrain ?d2))" "length ?ts = length (butlast (peakTrain ?d1))"
    by (simp_all add: peakTrain_def)
  have ne: "butlast (peakTrain ?d0) \<noteq> []" "butlast (peakTrain ?d2) \<noteq> []"
    "butlast (peakTrain ?d1) \<noteq> []"
    by (simp_all add: peakTrain_def)
  have nt: "\<forall>t\<in>set (butlast ?ts). \<not> isTimedOut t 0 3000" "\<not> isTimedOut (last ?ts) 0 3000"
    by code_simp+
  have p0: "int (peakCount dc6 (aboveThreshold dc6 512) (butlast (butlast (peakTrain ?d0)))) < 2 * uint (ports dc6)"
    "polarityCounts dc6 (aboveThreshold dc6 512) (butlast (peakTrain ?d0)) = (12, 0)"
    by code_simp+
  have p2: "int (peakCount dc6 (aboveThreshold dc6 512) (butlast (butlast (peakTrain ?d2)))) < 2 * uint (ports dc6)"
    "polarityCounts dc6 (aboveThreshold dc6 512) (butlast (peakTrain ?d2)) = (8, 4)"
    by code_simp+
  have p1: "int (peakCount dc6 (aboveThreshold dc6 512) (butlast (butlast (peakTrain ?d1)))) < 2 * uint (ports dc6)"
    "polarityCounts dc6 (aboveThreshold dc6 512) (butlast (peakTrain ?d1)) = (10, 2)"
    by code_simp+
  let ?slow = "censusWorldDC [662, 662, 662] [0, 1000, 2000, 3001, 3011]"
  have ss: "sensor ?slow = 512 # [662, 512, 662] @ [512, 662, 512]"
    "clock ?slow = 0 # [1000, 2000, 3001] @ [3011]"
    "length [1000, 2000, 3001 :: ulong] = length [662, 512, 662 :: int]"
    "[662, 512, 662 :: int] \<noteq> []"
    by (simp_all add: censusWorldDC_def peakTrain_def)
  have st: "\<forall>t\<in>set (butlast [1000, 2000, 3001 :: ulong]). \<not> isTimedOut t 0 3000"
    "isTimedOut (last [1000, 2000, 3001 :: ulong]) 0 3000"
    by (simp_all add: isTimedOut_def)
  have ps: "int (peakCount dc6 (aboveThreshold dc6 512) (butlast [662, 512, 662])) < 2 * uint (ports dc6)"
    "polarityCounts dc6 (aboveThreshold dc6 512) [662, 512, 662] = (2, 0)"
    by code_simp+
  have n: "uint (ports dc6) = 6" "ports stepper6 = 6"
    by (simp_all add: dc6_def stepper6_def)
  have e: "last (butlast (peakTrain ?d0)) = 662" "last (butlast (peakTrain ?d2)) = 662"
    "last (butlast (peakTrain ?d1)) = 662" "aboveThreshold dc6 662"
    by code_simp+
  have w: "stopTurning (startTurning dc6 True ((censusWorldDC ps ?T)\<lparr>sensor := [512], clock := [240]\<rparr>))
            = \<lparr>sensor = [512], clock = [240],
                motor = [MotorPins False True, MotorPins False False], garbage = 0\<rparr>" for ps
    by (simp add: stopTurning_def startTurning_def act_def censusWorldDC_def dc6_def)
  have ws: "stopTurning (startTurning dc6 True (?slow\<lparr>sensor := [512, 662, 512], clock := [3011]\<rparr>))
            = \<lparr>sensor = [512, 662, 512], clock = [3011],
                motor = [MotorPins False True, MotorPins False False], garbage = 0\<rparr>"
    by (simp add: stopTurning_def startTurning_def act_def censusWorldDC_def dc6_def)
  from polarity_census [OF s l(1) c0 b(1,2) sd(1) cd ld(1) ne(1) nt(1) p0, where mul = 3]
       polarity_census [OF s l(2) c2 b(3,4) sd(2) cd ld(2) ne(2) nt(1) p2, where mul = 3]
       polarity_census [OF s l(3) c1 b(5,6) sd(3) cd ld(3) ne(3) nt(1) p1, where mul = 3]
       polarity_census [OF s l(3) c1 b(5,6) ss st(1) ps, where mul = 3]
  show ?thesis
    using nt(2) st(2) by (simp add: n e w ws)
qed

text \<open>
  Whole runs of the stepper \<open>initializeValve\<close> on six-port layouts without a reversed
  magnet and with two of them: the calibration finds the idle signal 512 and the
  threshold 54, and the census ends the call with error 2.
\<close>

lemma initializeValve_wrong_layout:
  "map_sum id (\<lambda>(r, v', w'). (r, errors v', hallSensorIdleSignal v', hallSensorThreshold v'))
     (initializeValve stepper6
        (initWorld [magnetPos, magnetPos, magnetPos, magnetPos, magnetPos, magnetPos]))
   = Inr (False, 2, 512, 54)"
  "map_sum id (\<lambda>(r, v', w'). (r, errors v', hallSensorIdleSignal v', hallSensorThreshold v'))
     (initializeValve stepper6
        (initWorld [magnetPos, magnetNeg, magnetPos, magnetNeg, magnetPos, magnetPos]))
   = Inr (False, 2, 512, 54)"
  by code_simp+

text \<open>
  A whole run of the DC \<open>initializeValve\<close> on a six-port layout with two reversed
  magnets side by side: idle signal 512, threshold 60, and the census of twelve peaks
  ends the call with error 2.
\<close>

lemma initializeValveDC_wrong_layout:
  "map_sum id (\<lambda>(r, v', w'). (r, errors v', hallSensorIdleSignal v', hallSensorThreshold v'))
     (initializeValveDC dc6 pairWorld)
   = Inr (False, 2, 512, 60)"
  by code_simp

subsection \<open>Reference localization\<close>

lemma minorityCount_Cons:
  "minorityCount v maj ia (h # hs) =
     (if \<not> ia \<and> aboveThreshold v h \<and> (h > hallSensorIdleSignal v) \<noteq> maj then 1 else 0)
     + minorityCount v maj (aboveThreshold v h) hs"
  by (auto simp: minorityCount_def split: prod.splits)

lemma uint_byte_of_nat_le: "uint (of_nat c :: byte) \<le> int c"
  by (simp add: uint_nat unat_of_nat)

lemma locateLoopDC_rounds:
  assumes "sensor w = hs @ rest" and "clock w = ts @ trest" and "length ts = length hs"
      and "\<forall>t\<in>set ts. \<not> isTimedOut t st 3000"
      and "minorityCount v maj ia hs = 0"
      and "hs \<noteq> [] \<longrightarrow> uint sc + int (peakCount v ia (butlast hs)) \<le> 2 * uint (ports v)"
  shows "locateLoopDC v st maj sc ia w =
           locateLoopDC v st maj (sc + of_nat (peakCount v ia hs))
             (if hs = [] then ia else aboveThreshold v (last hs))
             (w\<lparr>sensor := rest, clock := trest\<rparr>)"
  using assms
proof (induction hs arbitrary: ts sc ia w)
  case Nil
  then have "w\<lparr>sensor := rest, clock := trest\<rparr> = w"
    by auto
  then show ?case by simp
next
  case (Cons h hs)
  from Cons.prems(3) obtain t ts' where ts: "ts = t # ts'" and l: "length ts' = length hs"
    by (cases ts) auto
  let ?w1 = "w\<lparr>clock := ts' @ trest\<rparr>"
  let ?w2 = "?w1\<lparr>sensor := hs @ rest\<rparr>"
  have m: "millis w = Inr (t, ?w1)"
    using Cons.prems(2) ts by (intro millis_Cons) simp
  have r: "readHallSensorSignal ?w1 = Inr (h, ?w2)"
    using Cons.prems(1) by (intro read_Cons) simp
  have nt: "\<not> isTimedOut t st 3000" and nts: "\<forall>t\<in>set ts'. \<not> isTimedOut t st 3000"
    using Cons.prems(4) ts by simp_all
  let ?rising = "\<not> ia \<and> aboveThreshold v h"
  let ?sc1 = "if ?rising then sc + 1 else sc"
  have nobreak: "\<not> (?rising \<and> (h > hallSensorIdleSignal v) \<noteq> maj)"
    and mc: "minorityCount v maj (aboveThreshold v h) hs = 0"
    using Cons.prems(5) by (simp_all add: minorityCount_Cons split: if_splits)
  have pc: "int (peakCount v ia (butlast (h # hs)))
              = (if hs = [] then 0
                 else (if ?rising then 1 else 0) + int (peakCount v (aboveThreshold v h) (butlast hs)))"
    by (simp add: peakCount_Cons)
  have c: "uint sc \<le> 2 * uint (ports v)"
    using Cons.prems(6) pc by (simp split: if_splits)
  have c1: "hs \<noteq> [] \<longrightarrow>
              uint ?sc1 + int (peakCount v (aboveThreshold v h) (butlast hs)) \<le> 2 * uint (ports v)"
  proof
    assume ne: "hs \<noteq> []"
    show "uint ?sc1 + int (peakCount v (aboveThreshold v h) (butlast hs)) \<le> 2 * uint (ports v)"
    proof (cases ?rising)
      case True
      with Cons.prems(6) pc ne
      have "uint sc + 1 + int (peakCount v (aboveThreshold v h) (butlast hs)) \<le> 2 * uint (ports v)"
        by simp
      moreover have "?sc1 = sc + 1"
        using True by simp
      ultimately show ?thesis
        using uint_byte_Suc_le [of sc] by (simp only:)
    next
      case False
      then have "?sc1 = sc"
        by simp
      with False Cons.prems(6) pc ne show ?thesis
        by (simp only:) simp
    qed
  qed
  have step: "locateLoopDC v st maj sc ia w = locateLoopDC v st maj ?sc1 (aboveThreshold v h) ?w2"
    using c m r nt nobreak by (subst locateLoopDC.simps) (auto simp: Let_def)
  have s2: "sensor ?w2 = hs @ rest" "clock ?w2 = ts' @ trest"
    by simp_all
  show ?case
    unfolding step Cons.IH [OF s2 l nts mc c1]
    by (simp add: peakCount_Cons add.assoc)
qed

lemma locateDC_no_reference:
  assumes "sensor w = hs @ rest" and "clock w = st # ts @ t # trest"
      and "length ts = length hs"
      and "\<forall>t'\<in>set ts. \<not> isTimedOut t' st 3000"
      and "minorityCount v maj ia hs = 0"
      and "int (peakCount v ia (butlast hs)) \<le> 2 * uint (ports v)"
      and "\<not> (ia \<and> (h0 > hallSensorIdleSignal v) \<noteq> maj)"
  shows "int (peakCount v ia hs) \<le> 2 * uint (ports v) \<Longrightarrow> isTimedOut t st 3000 \<Longrightarrow>
           locateDC v maj ia h0 w =
             Inr (False, v\<lparr>errors := 3\<rparr>,
                  stopTurning (startTurning v True (w\<lparr>sensor := rest, clock := trest\<rparr>)))"
    and "int (peakCount v ia hs) = 2 * uint (ports v) + 1 \<Longrightarrow> uint (ports v) \<le> 127 \<Longrightarrow>
           locateDC v maj ia h0 w =
             Inr (False, v\<lparr>errors := 2\<rparr>,
                  stopTurning (startTurning v True (w\<lparr>sensor := rest, clock := t # trest\<rparr>)))"
proof -
  let ?w1 = "w\<lparr>clock := ts @ t # trest\<rparr>"
  let ?w2 = "startTurning v True ?w1"
  let ?c = "peakCount v ia hs"
  let ?ia = "if hs = [] then ia else aboveThreshold v (last hs)"
  have m: "millis w = Inr (st, ?w1)"
    using assms(2) by (intro millis_Cons) simp
  have s2: "sensor ?w2 = hs @ rest" "clock ?w2 = ts @ t # trest"
    using assms(1) by simp_all
  have c: "hs \<noteq> [] \<longrightarrow> uint (0 :: byte) + int (peakCount v ia (butlast hs)) \<le> 2 * uint (ports v)"
    using assms(6) by simp
  note rounds = locateLoopDC_rounds [OF s2 assms(3,4,5) c]
  let ?w3 = "?w2\<lparr>sensor := rest, clock := t # trest\<rparr>"
  have w3: "?w3 = startTurning v True (w\<lparr>sensor := rest, clock := t # trest\<rparr>)"
    by (simp add: startTurning_def act_def)
  have m3: "millis ?w3 = Inr (t, ?w3\<lparr>clock := trest\<rparr>)"
    by (intro millis_Cons) simp
  have w4: "?w3\<lparr>clock := trest\<rparr> = startTurning v True (w\<lparr>sensor := rest, clock := trest\<rparr>)"
    by (simp add: startTurning_def act_def)
  have loc: "locateDC v maj ia h0 w =
      (case locateLoopDC v st maj 0 ia ?w2 of
         Inl e \<Rightarrow> Inl e
       | Inr (Return r) \<Rightarrow> Inr r
       | Inr (Next (signalCounter, w2)) \<Rightarrow>
           if uint signalCounter \<ge> 2 * uint (ports v)
           then Inr (False, v\<lparr>errors := 2\<rparr>, stopTurning w2)
           else finalizeDC v (stopTurning w2))"
    using assms(7)
    by (cases ia; cases maj; cases "h0 > hallSensorIdleSignal v")
       (simp_all add: locateDC_def Let_def m)
  show "locateDC v maj ia h0 w =
             Inr (False, v\<lparr>errors := 3\<rparr>,
                  stopTurning (startTurning v True (w\<lparr>sensor := rest, clock := trest\<rparr>)))"
    if le: "int ?c \<le> 2 * uint (ports v)" and to: "isTimedOut t st 3000"
  proof -
    have "uint (0 + of_nat ?c :: byte) \<le> 2 * uint (ports v)"
      using le uint_byte_of_nat_le [of ?c] by simp
    then have "locateLoopDC v st maj (0 + of_nat ?c) ?ia ?w3 =
                 Inr (Return (False, v\<lparr>errors := 3\<rparr>, stopTurning (?w3\<lparr>clock := trest\<rparr>)))"
      using m3 to by (subst locateLoopDC.simps) simp
    then show ?thesis
      unfolding loc rounds by (simp add: w4)
  qed
  show "locateDC v maj ia h0 w =
             Inr (False, v\<lparr>errors := 2\<rparr>,
                  stopTurning (startTurning v True (w\<lparr>sensor := rest, clock := t # trest\<rparr>)))"
    if full: "int ?c = 2 * uint (ports v) + 1" and p: "uint (ports v) \<le> 127"
  proof -
    have "?c < 256"
      using full p by linarith
    then have u: "uint (0 + of_nat ?c :: byte) = 2 * uint (ports v) + 1"
      using full by (simp add: uint_byte_of_nat)
    then have "locateLoopDC v st maj (0 + of_nat ?c) ?ia ?w3 = Inr (Next (0 + of_nat ?c, ?w3))"
      by (subst locateLoopDC.simps) simp
    then show ?thesis
      unfolding loc rounds using u by (simp add: w3)
  qed
qed

lemma locateLoop_rounds:
  assumes "sensor w = hs @ rest" and "clock w = ts @ trest" and "length ts = length hs"
      and "\<forall>t\<in>set ts. \<not> isTimedOut t st 2000"
      and "minorityCount v maj ia hs = 0"
      and "hs \<noteq> [] \<longrightarrow> uint sc + int (peakCount v ia (butlast hs)) \<le> 2 * uint (ports v)"
  shows "locateLoop v mul st maj sc ia h0 w =
           locateLoop v mul st maj (sc + of_nat (peakCount v ia hs))
             (if hs = [] then ia else aboveThreshold v (last hs)) (last (h0 # hs))
             (w\<lparr>sensor := rest, clock := trest,
                motor := motor w @ replicate (length hs)
                           (Steps ((if clockwiseNumbering v then - 1 else 1) * uint mul))\<rparr>)"
  using assms
proof (induction hs arbitrary: ts sc ia h0 w)
  case Nil
  then have "w\<lparr>sensor := rest, clock := trest, motor := motor w\<rparr> = w"
    by auto
  then show ?case by simp
next
  case (Cons h hs)
  from Cons.prems(3) obtain t ts' where ts: "ts = t # ts'" and l: "length ts' = length hs"
    by (cases ts) auto
  let ?S = "Steps ((if clockwiseNumbering v then - 1 else 1) * uint mul)"
  let ?w1 = "w\<lparr>clock := ts' @ trest\<rparr>"
  let ?w2 = "?w1\<lparr>sensor := hs @ rest\<rparr>"
  let ?w3 = "takeSteps v 1 (uint mul) ?w2"
  have m: "millis w = Inr (t, ?w1)"
    using Cons.prems(2) ts by (intro millis_Cons) simp
  have r: "readHallSensorSignal ?w1 = Inr (h, ?w2)"
    using Cons.prems(1) by (intro read_Cons) simp
  have nt: "\<not> isTimedOut t st 2000" and nts: "\<forall>t\<in>set ts'. \<not> isTimedOut t st 2000"
    using Cons.prems(4) ts by simp_all
  let ?rising = "\<not> ia \<and> aboveThreshold v h"
  let ?sc1 = "if ?rising then sc + 1 else sc"
  have nobreak: "\<not> (?rising \<and> (h > hallSensorIdleSignal v) \<noteq> maj)"
    and mc: "minorityCount v maj (aboveThreshold v h) hs = 0"
    using Cons.prems(5) by (simp_all add: minorityCount_Cons split: if_splits)
  have pc: "int (peakCount v ia (butlast (h # hs)))
              = (if hs = [] then 0
                 else (if ?rising then 1 else 0) + int (peakCount v (aboveThreshold v h) (butlast hs)))"
    by (simp add: peakCount_Cons)
  have c: "uint sc \<le> 2 * uint (ports v)"
    using Cons.prems(6) pc by (simp split: if_splits)
  have c1: "hs \<noteq> [] \<longrightarrow>
              uint ?sc1 + int (peakCount v (aboveThreshold v h) (butlast hs)) \<le> 2 * uint (ports v)"
  proof
    assume ne: "hs \<noteq> []"
    show "uint ?sc1 + int (peakCount v (aboveThreshold v h) (butlast hs)) \<le> 2 * uint (ports v)"
    proof (cases ?rising)
      case True
      with Cons.prems(6) pc ne
      have "uint sc + 1 + int (peakCount v (aboveThreshold v h) (butlast hs)) \<le> 2 * uint (ports v)"
        by simp
      moreover have "?sc1 = sc + 1"
        using True by simp
      ultimately show ?thesis
        using uint_byte_Suc_le [of sc] by (simp only:)
    next
      case False
      then have "?sc1 = sc"
        by simp
      with False Cons.prems(6) pc ne show ?thesis
        by (simp only:) simp
    qed
  qed
  have step: "locateLoop v mul st maj sc ia h0 w =
                locateLoop v mul st maj ?sc1 (aboveThreshold v h) h ?w3"
    using c m r nt nobreak by (subst locateLoop.simps) (auto simp: Let_def)
  have s3: "sensor ?w3 = hs @ rest" "clock ?w3 = ts' @ trest"
    by simp_all
  have w: "?w3\<lparr>sensor := rest, clock := trest, motor := motor ?w3 @ replicate (length hs) ?S\<rparr>
           = w\<lparr>sensor := rest, clock := trest, motor := motor w @ replicate (length (h # hs)) ?S\<rparr>"
    by (simp add: takeSteps_def act_def)
  have last: "last (h # hs) = last (h0 # h # hs)"
    by simp
  show ?case
    unfolding step Cons.IH [OF s3 l nts mc c1] w last
    by (simp add: peakCount_Cons add.assoc)
qed

lemma locate_no_reference:
  assumes "sensor w = hs @ rest" and "clock w = st # ts @ t # trest"
      and "length ts = length hs"
      and "\<forall>t'\<in>set ts. \<not> isTimedOut t' st 2000"
      and "minorityCount v maj ia hs = 0"
      and "int (peakCount v ia (butlast hs)) \<le> 2 * uint (ports v)"
      and "\<not> (ia \<and> (h0 > hallSensorIdleSignal v) \<noteq> maj)"
  shows "int (peakCount v ia hs) \<le> 2 * uint (ports v) \<Longrightarrow> isTimedOut t st 2000 \<Longrightarrow>
           locate v mul maj ia h0 w =
             Inr (False, v\<lparr>errors := 3\<rparr>,
                  act (SleepPin (\<not> enableIsHigh v))
                    (w\<lparr>sensor := rest, clock := trest,
                       motor := motor w @ replicate (length hs)
                                  (Steps ((if clockwiseNumbering v then - 1 else 1) * uint mul))\<rparr>))"
    and "int (peakCount v ia hs) = 2 * uint (ports v) + 1 \<Longrightarrow> uint (ports v) \<le> 127 \<Longrightarrow>
           locate v mul maj ia h0 w =
             Inr (False, v\<lparr>errors := 2\<rparr>,
                  act (SleepPin (\<not> enableIsHigh v))
                    (w\<lparr>sensor := rest, clock := t # trest,
                       motor := motor w @ replicate (length hs)
                                  (Steps ((if clockwiseNumbering v then - 1 else 1) * uint mul))\<rparr>))"
proof -
  let ?S = "Steps ((if clockwiseNumbering v then - 1 else 1) * uint mul)"
  let ?w1 = "w\<lparr>clock := ts @ t # trest\<rparr>"
  let ?c = "peakCount v ia hs"
  let ?ia = "if hs = [] then ia else aboveThreshold v (last hs)"
  have m: "millis w = Inr (st, ?w1)"
    using assms(2) by (intro millis_Cons) simp
  have s1: "sensor ?w1 = hs @ rest" "clock ?w1 = ts @ t # trest"
    using assms(1) by simp_all
  have c: "hs \<noteq> [] \<longrightarrow> uint (0 :: byte) + int (peakCount v ia (butlast hs)) \<le> 2 * uint (ports v)"
    using assms(6) by simp
  note rounds = locateLoop_rounds [OF s1 assms(3,4,5) c, of mul h0]
  let ?w3 = "?w1\<lparr>sensor := rest, clock := t # trest, motor := motor ?w1 @ replicate (length hs) ?S\<rparr>"
  have w3: "?w3 = w\<lparr>sensor := rest, clock := t # trest, motor := motor w @ replicate (length hs) ?S\<rparr>"
    by simp
  have m3: "millis ?w3 = Inr (t, ?w3\<lparr>clock := trest\<rparr>)"
    by (intro millis_Cons) simp
  have w4: "?w3\<lparr>clock := trest\<rparr>
              = w\<lparr>sensor := rest, clock := trest, motor := motor w @ replicate (length hs) ?S\<rparr>"
    by simp
  have loc: "locate v mul maj ia h0 w =
      (case locateLoop v mul st maj 0 ia h0 ?w1 of
         Inl e \<Rightarrow> Inl e
       | Inr (Return r) \<Rightarrow> Inr r
       | Inr (Next (signalCounter, hallSignal1, w2)) \<Rightarrow>
           if uint signalCounter \<ge> 2 * uint (ports v)
           then Inr (False, v\<lparr>errors := 2\<rparr>, act (SleepPin (\<not> enableIsHigh v)) w2)
           else (case homeLoop v st hallSignal1 hallSignal1 w2 of
                   Inl e \<Rightarrow> Inl e
                 | Inr (Return r) \<Rightarrow> Inr r
                 | Inr (Next w3) \<Rightarrow> finalize v w3))"
    using assms(7)
    by (cases ia; cases maj; cases "h0 > hallSensorIdleSignal v")
       (simp_all add: locate_def Let_def m)
  show "locate v mul maj ia h0 w =
             Inr (False, v\<lparr>errors := 3\<rparr>,
                  act (SleepPin (\<not> enableIsHigh v))
                    (w\<lparr>sensor := rest, clock := trest,
                       motor := motor w @ replicate (length hs) ?S\<rparr>))"
    if le: "int ?c \<le> 2 * uint (ports v)" and to: "isTimedOut t st 2000"
  proof -
    have "uint (0 + of_nat ?c :: byte) \<le> 2 * uint (ports v)"
      using le uint_byte_of_nat_le [of ?c] by simp
    then have "locateLoop v mul st maj (0 + of_nat ?c) ?ia (last (h0 # hs)) ?w3 =
                 Inr (Return (False, v\<lparr>errors := 3\<rparr>,
                   act (SleepPin (\<not> enableIsHigh v)) (?w3\<lparr>clock := trest\<rparr>)))"
      using m3 to by (subst locateLoop.simps) simp
    then show ?thesis
      unfolding loc rounds by (simp only: w4 sum.case flow.case)
  qed
  show "locate v mul maj ia h0 w =
             Inr (False, v\<lparr>errors := 2\<rparr>,
                  act (SleepPin (\<not> enableIsHigh v))
                    (w\<lparr>sensor := rest, clock := t # trest,
                       motor := motor w @ replicate (length hs) ?S\<rparr>))"
    if full: "int ?c = 2 * uint (ports v) + 1" and p: "uint (ports v) \<le> 127"
  proof -
    have "?c < 256"
      using full p by linarith
    then have u: "uint (0 + of_nat ?c :: byte) = 2 * uint (ports v) + 1"
      using full by (simp add: uint_byte_of_nat)
    then have "locateLoop v mul st maj (0 + of_nat ?c) ?ia (last (h0 # hs)) ?w3
                 = Inr (Next (0 + of_nat ?c, last (h0 # hs), ?w3))"
      by (subst locateLoop.simps) simp
    then show ?thesis
      unfolding loc rounds using u by (simp only: w3 sum.case flow.case prod.case) simp
  qed
qed

text \<open>
  C5, as stated, fails. A three-port valve that passes seven peaks of the majority
  polarity within 140 ms, far inside the time budget, ends its search with error 2, not
  with the timeout error 3, in both variants.
\<close>

theorem reference_search_counterexample:
  "locate stepper3 3 True False 512 (searchWorld [660, 660, 660, 660, 660, 660, 660]) =
     Inr (False, stepper3\<lparr>errors := 2\<rparr>,
          \<lparr>sensor = [512], clock = [140, 5000],
           motor = replicate 13 (Steps 3) @ [SleepPin False], garbage = 0\<rparr>)
   \<and> locateDC dc3 True False 512 (searchWorld [662, 662, 662, 662, 662, 662, 662]) =
     Inr (False, dc3\<lparr>errors := 2\<rparr>,
          \<lparr>sensor = [512], clock = [140, 5000],
           motor = [MotorPins False True, MotorPins False False], garbage = 0\<rparr>)"
  by code_simp

text \<open>
  C5, amended. When the search for the reference magnet starts away from it and the
  readings it consumes contain no peak of the minority polarity, \<open>initializeValve\<close>
  returns \<open>false\<close>: with error 3 (Timeout) when the time budget (2000 ms stepper, 3000 ms
  DC) has passed at a check of the loop while at most \<open>2 N\<close> peaks were counted, and with
  error 2 when \<open>2 N + 1\<close> peaks were counted before that (a count the byte counter can
  hold for at most 127 ports).
\<close>

theorem reference_search_failure:
  assumes "sensor w = hs @ rest" and "clock w = st # ts @ t # trest"
      and "length ts = length hs"
      and "\<forall>t'\<in>set ts. \<not> isTimedOut t' st 2000"
      and "minorityCount v maj ia hs = 0"
      and "int (peakCount v ia (butlast hs)) \<le> 2 * uint (ports v)"
      and "\<not> (ia \<and> (h0 > hallSensorIdleSignal v) \<noteq> maj)"
      and "sensor wd = hsd @ restd" and "clock wd = std # tsd @ td # trestd"
      and "length tsd = length hsd"
      and "\<forall>t'\<in>set tsd. \<not> isTimedOut t' std 3000"
      and "minorityCount vd majd iad hsd = 0"
      and "int (peakCount vd iad (butlast hsd)) \<le> 2 * uint (ports vd)"
      and "\<not> (iad \<and> (hd0 > hallSensorIdleSignal vd) \<noteq> majd)"
  shows "(int (peakCount v ia hs) \<le> 2 * uint (ports v) \<and> isTimedOut t st 2000 \<longrightarrow>
           locate v mul maj ia h0 w =
             Inr (False, v\<lparr>errors := 3\<rparr>,
                  act (SleepPin (\<not> enableIsHigh v))
                    (w\<lparr>sensor := rest, clock := trest,
                       motor := motor w @ replicate (length hs)
                                  (Steps ((if clockwiseNumbering v then - 1 else 1) * uint mul))\<rparr>)))
       \<and> (int (peakCount v ia hs) = 2 * uint (ports v) + 1 \<and> uint (ports v) \<le> 127 \<longrightarrow>
           locate v mul maj ia h0 w =
             Inr (False, v\<lparr>errors := 2\<rparr>,
                  act (SleepPin (\<not> enableIsHigh v))
                    (w\<lparr>sensor := rest, clock := t # trest,
                       motor := motor w @ replicate (length hs)
                                  (Steps ((if clockwiseNumbering v then - 1 else 1) * uint mul))\<rparr>)))
       \<and> (int (peakCount vd iad hsd) \<le> 2 * uint (ports vd) \<and> isTimedOut td std 3000 \<longrightarrow>
           locateDC vd majd iad hd0 wd =
             Inr (False, vd\<lparr>errors := 3\<rparr>,
                  stopTurning (startTurning vd True (wd\<lparr>sensor := restd, clock := trestd\<rparr>))))
       \<and> (int (peakCount vd iad hsd) = 2 * uint (ports vd) + 1 \<and> uint (ports vd) \<le> 127 \<longrightarrow>
           locateDC vd majd iad hd0 wd =
             Inr (False, vd\<lparr>errors := 2\<rparr>,
                  stopTurning (startTurning vd True (wd\<lparr>sensor := restd, clock := td # trestd\<rparr>))))"
  using locate_no_reference [OF assms(1-7), of mul] locateDC_no_reference [OF assms(8-14)]
  by blast

theorem reference_search_failure_witness:
  "locate stepper3 3 True False 512 slowWorld =
     Inr (False, stepper3\<lparr>errors := 3\<rparr>,
          \<lparr>sensor = [660, 512, 512], clock = [3001, 3011],
           motor = [Steps 3, Steps 3, SleepPin False], garbage = 0\<rparr>)
   \<and> locateDC dc3 True False 512 slowWorld =
     Inr (False, dc3\<lparr>errors := 3\<rparr>,
          \<lparr>sensor = [512, 512], clock = [3011],
           motor = [MotorPins False True, MotorPins False False], garbage = 0\<rparr>)
   \<and> locate stepper3 3 True False 512 (searchWorld [660, 660, 660, 660, 660, 660, 660]) =
     Inr (False, stepper3\<lparr>errors := 2\<rparr>,
          \<lparr>sensor = [512], clock = [140, 5000],
           motor = [Steps 3, Steps 3, Steps 3, Steps 3, Steps 3, Steps 3, Steps 3, Steps 3,
                    Steps 3, Steps 3, Steps 3, Steps 3, Steps 3, SleepPin False],
           garbage = 0\<rparr>)
   \<and> locateDC dc3 True False 512 (searchWorld [662, 662, 662, 662, 662, 662, 662]) =
     Inr (False, dc3\<lparr>errors := 2\<rparr>,
          \<lparr>sensor = [512], clock = [140, 5000],
           motor = [MotorPins False True, MotorPins False False], garbage = 0\<rparr>)"
proof -
  let ?p7 = "[660, 660, 660, 660, 660, 660, 660] :: int list"
  let ?q7 = "[662, 662, 662, 662, 662, 662, 662] :: int list"
  let ?h7 = "[660, 512, 660, 512, 660, 512, 660, 512, 660, 512, 660, 512, 660] :: int list"
  let ?g7 = "[662, 512, 662, 512, 662, 512, 662, 512, 662, 512, 662, 512, 662] :: int list"
  let ?t13 = "[10, 20, 30, 40, 50, 60, 70, 80, 90, 100, 110, 120, 130] :: ulong list"
  have a: "sensor slowWorld = [660, 512] @ [660, 512, 512]"
    "clock slowWorld = 0 # [1000, 2000] @ 3000 # [3001, 3011]"
    "length [1000, 2000 :: ulong] = length [660, 512 :: int]"
    "\<forall>t'\<in>set [1000, 2000 :: ulong]. \<not> isTimedOut t' 0 2000"
    "isTimedOut 3000 0 2000"
    by (simp_all add: slowWorld_def isTimedOut_def)
  have ad: "sensor slowWorld = [660, 512, 660] @ [512, 512]"
    "clock slowWorld = 0 # [1000, 2000, 3000] @ 3001 # [3011]"
    "length [1000, 2000, 3000 :: ulong] = length [660, 512, 660 :: int]"
    "\<forall>t'\<in>set [1000, 2000, 3000 :: ulong]. \<not> isTimedOut t' 0 3000"
    "isTimedOut 3001 0 3000"
    by (simp_all add: slowWorld_def isTimedOut_def)
  have b: "minorityCount stepper3 True False [660, 512] = 0"
    "int (peakCount stepper3 False (butlast [660, 512])) \<le> 2 * uint (ports stepper3)"
    "int (peakCount stepper3 False [660, 512]) \<le> 2 * uint (ports stepper3)"
    "minorityCount dc3 True False [660, 512, 660] = 0"
    "int (peakCount dc3 False (butlast [660, 512, 660])) \<le> 2 * uint (ports dc3)"
    "int (peakCount dc3 False [660, 512, 660]) \<le> 2 * uint (ports dc3)"
    by code_simp+
  have s: "sensor (searchWorld ?p7) = ?h7 @ [512]" "sensor (searchWorld ?q7) = ?g7 @ [512]"
    "clock (searchWorld ps) = 0 # ?t13 @ 140 # [5000]"
    "length ?t13 = length ?h7" "length ?t13 = length ?g7"
    "\<forall>t'\<in>set ?t13. \<not> isTimedOut t' 0 2000" "\<forall>t'\<in>set ?t13. \<not> isTimedOut t' 0 3000" for ps
    by (simp_all add: searchWorld_def peakTrain_def isTimedOut_def)
  have c: "minorityCount stepper3 True False ?h7 = 0"
    "int (peakCount stepper3 False (butlast ?h7)) \<le> 2 * uint (ports stepper3)"
    "int (peakCount stepper3 False ?h7) = 2 * uint (ports stepper3) + 1"
    "minorityCount dc3 True False ?g7 = 0"
    "int (peakCount dc3 False (butlast ?g7)) \<le> 2 * uint (ports dc3)"
    "int (peakCount dc3 False ?g7) = 2 * uint (ports dc3) + 1"
    by code_simp+
  have i: "\<not> (False \<and> (512 > hallSensorIdleSignal stepper3) \<noteq> True)"
    "\<not> (False \<and> (512 > hallSensorIdleSignal dc3) \<noteq> True)"
    by simp_all
  have p: "uint (ports stepper3) \<le> 127" "uint (ports dc3) \<le> 127"
    "enableIsHigh stepper3" "\<not> clockwiseNumbering stepper3" "\<not> clockwiseNumbering dc3"
    by (simp_all add: stepper3_def dc3_def)
  from reference_search_failure [OF a(1-4) b(1,2) i(1) ad(1-4) b(4,5) i(2), where mul = 3]
       reference_search_failure [OF s(1,3,4,6) c(1,2) i(1) s(2,3,5,7) c(4,5) i(2), where mul = 3]
  show ?thesis
    using a(5) ad(5) b(3,6) c(3,6) p
    by (simp add: slowWorld_def searchWorld_def peakTrain_def act_def startTurning_def
          stopTurning_def)
qed

text \<open>
  C8. \<open>isTimedOut(startTime, timeout)\<close> computes the elapsed time as the unsigned 32-bit
  difference \<open>(millis() - startTime) mod 2^32\<close> and, for every start time and every
  non-negative \<open>int\<close> timeout, is true exactly when that elapsed time exceeds the timeout;
  the \<open>millis()\<close> value may have wrapped around past the start time.
\<close>

theorem isTimedOut_wraparound:
  assumes "0 \<le> timeout" and "timeout < 2 ^ 31"
  shows "isTimedOut now startTime timeout \<longleftrightarrow>
           timeout < (uint now - uint startTime) mod 2 ^ 32"
proof -
  have t: "uint (word_of_int timeout :: ulong) = timeout"
    using assms by (simp add: uint_word_of_int)
  have "uint (now - startTime) = (uint now - uint startTime) mod 2 ^ 32"
    by (simp add: uint_word_ariths)
  then show ?thesis
    by (simp add: isTimedOut_def word_less_def t)
qed

theorem isTimedOut_wraparound_witness:
  "(0::int) \<le> 2000 \<and> (2000::int) < 2 ^ 31
   \<and> isTimedOut 1705 4294966000 2000
   \<and> (2000::int) < (uint (1705 :: ulong) - uint (4294966000 :: ulong)) mod 2 ^ 32
   \<and> \<not> isTimedOut 1704 4294967000 2000"
  using isTimedOut_wraparound [of 2000 1705 4294966000]
        isTimedOut_wraparound [of 2000 1704 4294967000]
  by simp

end
